theory Spec2Isabelle
  imports Complex_Main
begin

section \<open>Data model\<close>

text \<open>
  Attribute values of nodes and edges are numbers (frame index, position, scores,
  distances) or booleans (selection flags): a Python bool, a Python int, or a
  Python float, which is \<open>VNum\<close> of the real number the float stands for (a
  finite binary64 number). Python compares numbers of the three kinds by their
  exact values, a bool as 0 or 1, which \<open>num_of\<close> gives. An attribute dictionary
  is a partial map from attribute name to value.
\<close>

datatype val = VBool bool | VInt int | VNum real

type_synonym attrs = "string \<rightharpoonup> val"

fun num_of :: "val \<Rightarrow> real" where
  "num_of (VBool b) = (if b then 1 else 0)"
| "num_of (VInt i) = of_int i"
| "num_of (VNum r) = r"

datatype error =
    KeyError string
  | TypeError
  | ValueError
  | IndexError
  | AttributeError
  | RuntimeError string
  | AssertionError
  | IOError
  | OverflowError

section \<open>Python arithmetic on numbers\<close>

text \<open>
  The result of an addition or subtraction: a number, or an infinity when a float
  operation overflows.
\<close>

datatype pynum = Num real | PosInf | NegInf

text \<open>Rounding to the nearest integer, a tie to the even one.\<close>

definition round_half_even :: "real \<Rightarrow> int" where
  "round_half_even q =
     (let f = \<lfloor>q\<rfloor> in
      if q - of_int f < 1 / 2 then f
      else if q - of_int f > 1 / 2 then f + 1
      else if even f then f else f + 1)"

text \<open>
  IEEE 754 binary64, round to nearest, ties to even. The exponent of a number is
  that of its binade, not below -1022 (below that the numbers are subnormal); the
  numbers of a binade are the multiples of its unit in the last place, 52 binary
  digits below the exponent; a result of magnitude \<open>2 ^ 1024\<close> or more is an
  infinity.
\<close>

definition binade :: "real \<Rightarrow> int" where
  "binade s = max \<lfloor>log 2 \<bar>s\<bar>\<rfloor> (- 1022)"

definition overflow_threshold :: real where
  "overflow_threshold = 2 ^ 1024"

definition round64 :: "real \<Rightarrow> pynum" where
  "round64 s =
     (if s = 0 then Num 0
      else
        (let ulp = 2 powi (binade s - 52);
             r = of_int (round_half_even (s / ulp)) * ulp
         in if r \<ge> overflow_threshold then PosInf
            else if r \<le> - overflow_threshold then NegInf
            else Num r))"

definition is_float :: "val \<Rightarrow> bool" where
  "is_float v = (case v of VNum r \<Rightarrow> True | _ \<Rightarrow> False)"

text \<open>
  The conversion of an operand to a float: a float is itself; an int or bool is
  rounded, and one too large for a float raises OverflowError.
\<close>

definition to_float :: "val \<Rightarrow> error + real" where
  "to_float v =
     (case v of
        VNum r \<Rightarrow> Inr r
      | _ \<Rightarrow> (case round64 (num_of v) of Num r \<Rightarrow> Inr r | _ \<Rightarrow> Inl OverflowError))"

text \<open>
  Python's \<open>a + b\<close> and \<open>a - b\<close> on numbers: exact on ints and bools; when one
  operand is a float, the float operation on the operands as floats.
\<close>

definition py_add :: "val \<Rightarrow> val \<Rightarrow> error + pynum" where
  "py_add a b =
     (if is_float a \<or> is_float b
      then (case to_float a of
              Inl err \<Rightarrow> Inl err
            | Inr x \<Rightarrow>
                (case to_float b of
                   Inl err \<Rightarrow> Inl err
                 | Inr y \<Rightarrow> Inr (round64 (x + y))))
      else Inr (Num (num_of a + num_of b)))"

definition py_sub :: "val \<Rightarrow> val \<Rightarrow> error + pynum" where
  "py_sub a b =
     (if is_float a \<or> is_float b
      then (case to_float a of
              Inl err \<Rightarrow> Inl err
            | Inr x \<Rightarrow>
                (case to_float b of
                   Inl err \<Rightarrow> Inl err
                 | Inr y \<Rightarrow> Inr (round64 (x - y))))
      else Inr (Num (num_of a - num_of b)))"

text \<open>The comparisons \<open>>=\<close> and \<open><\<close> of such a result with an int, which are exact.\<close>

fun ge_int :: "pynum \<Rightarrow> int \<Rightarrow> bool" where
  "ge_int (Num r) i \<longleftrightarrow> r \<ge> of_int i"
| "ge_int PosInf i \<longleftrightarrow> True"
| "ge_int NegInf i \<longleftrightarrow> False"

fun lt_int :: "pynum \<Rightarrow> int \<Rightarrow> bool" where
  "lt_int (Num r) i \<longleftrightarrow> r < of_int i"
| "lt_int PosInf i \<longleftrightarrow> False"
| "lt_int NegInf i \<longleftrightarrow> True"

text \<open>
  A directed graph as networkx holds it: the nodes with their attributes and the
  edges with theirs, each in iteration order. networkx keeps one entry per node id
  and per ordered pair, and adding an edge adds its endpoints; \<open>wf_graph\<close> states
  that.
\<close>

type_synonym node = int
type_synonym edge = "node \<times> node"

record graph =
  nodes :: "(node \<times> attrs) list"
  edges :: "(edge \<times> attrs) list"

definition node_ids :: "graph \<Rightarrow> node list" where
  "node_ids g = map fst (nodes g)"

definition edge_ids :: "graph \<Rightarrow> edge list" where
  "edge_ids g = map fst (edges g)"

definition wf_graph :: "graph \<Rightarrow> bool" where
  "wf_graph g \<longleftrightarrow>
     distinct (node_ids g) \<and> distinct (edge_ids g) \<and>
     (\<forall>e \<in> set (edge_ids g). fst e \<in> set (node_ids g) \<and> snd e \<in> set (node_ids g))"

definition empty_graph :: graph where
  "empty_graph = \<lparr>nodes = [], edges = []\<rparr>"

definition number_of_nodes :: "graph \<Rightarrow> nat" where
  "number_of_nodes g = length (nodes g)"

definition number_of_edges :: "graph \<Rightarrow> nat" where
  "number_of_edges g = length (edges g)"

definition has_edge :: "graph \<Rightarrow> node \<Rightarrow> node \<Rightarrow> bool" where
  "has_edge g u v \<longleftrightarrow> (u, v) \<in> set (edge_ids g)"

definition out_edges :: "graph \<Rightarrow> node \<Rightarrow> edge list" where
  "out_edges g u = filter (\<lambda>e. fst e = u) (edge_ids g)"

definition in_edges :: "graph \<Rightarrow> node \<Rightarrow> edge list" where
  "in_edges g v = filter (\<lambda>e. snd e = v) (edge_ids g)"

definition in_degree :: "graph \<Rightarrow> node \<Rightarrow> nat" where
  "in_degree g v = length (in_edges g v)"

text \<open>\<open>add_node\<close> and \<open>add_edge\<close> without attributes: an entry that exists is kept.\<close>

definition add_node :: "graph \<Rightarrow> node \<Rightarrow> graph" where
  "add_node g n =
     (if n \<in> set (node_ids g) then g else g\<lparr>nodes := nodes g @ [(n, Map.empty)]\<rparr>)"

definition add_edge :: "graph \<Rightarrow> node \<Rightarrow> node \<Rightarrow> graph" where
  "add_edge g u v =
     (let g1 = add_node (add_node g u) v
      in if (u, v) \<in> set (edge_ids g1) then g1
         else g1\<lparr>edges := edges g1 @ [((u, v), Map.empty)]\<rparr>)"

text \<open>\<open>remove_edges_from\<close> ignores edges that are not in the graph.\<close>

definition remove_edges_from :: "graph \<Rightarrow> edge list \<Rightarrow> graph" where
  "remove_edges_from g es = g\<lparr>edges := filter (\<lambda>(e, d). e \<notin> set es) (edges g)\<rparr>"

text \<open>Removing a node removes the edges at it.\<close>

definition remove_node :: "graph \<Rightarrow> node \<Rightarrow> graph" where
  "remove_node g n =
     \<lparr>nodes = filter (\<lambda>(m, d). m \<noteq> n) (nodes g),
      edges = filter (\<lambda>(e, d). fst e \<noteq> n \<and> snd e \<noteq> n) (edges g)\<rparr>"

definition remove_nodes_from :: "graph \<Rightarrow> node list \<Rightarrow> graph" where
  "remove_nodes_from g ns =
     \<lparr>nodes = filter (\<lambda>(m, d). m \<notin> set ns) (nodes g),
      edges = filter (\<lambda>(e, d). fst e \<notin> set ns \<and> snd e \<notin> set ns) (edges g)\<rparr>"

definition set_edge_attributes :: "graph \<Rightarrow> val \<Rightarrow> string \<Rightarrow> graph" where
  "set_edge_attributes g x key = g\<lparr>edges := map (\<lambda>(e, d). (e, d(key \<mapsto> x))) (edges g)\<rparr>"

text \<open>The assignment \<open>graph.edges[(u, v)][key] = x\<close>.\<close>

definition set_edge_attr :: "graph \<Rightarrow> edge \<Rightarrow> string \<Rightarrow> val \<Rightarrow> graph" where
  "set_edge_attr g e key x =
     g\<lparr>edges := map (\<lambda>(e', d). if e' = e then (e', d(key \<mapsto> x)) else (e', d)) (edges g)\<rparr>"

section \<open>The greedy tracker (tracking/track.py)\<close>

text \<open>
  The loop that removes the nodes of \<open>unselected\<close> whose score is below the
  threshold; it runs over a snapshot of the node list. A node without a score
  raises KeyError.
\<close>

fun remove_below_threshold :: "real \<Rightarrow> (node \<times> attrs) list \<Rightarrow> graph \<Rightarrow> error + graph" where
  "remove_below_threshold th [] unselected = Inr unselected"
| "remove_below_threshold th ((n, d) # rest) unselected =
     (case d ''score'' of
        None \<Rightarrow> Inl (KeyError ''score'')
      | Some s \<Rightarrow>
          if num_of s < th
          then remove_below_threshold th rest (remove_node unselected n)
          else remove_below_threshold th rest unselected)"

text \<open>
  \<open>sorted(list(graph.edges(data=True)), key=lambda e: e[2][metric])\<close>: the key of
  every edge is computed first (KeyError when the metric is missing), then the
  edges are sorted by it, stably.
\<close>

fun sort_keys :: "string \<Rightarrow> (edge \<times> attrs) list \<Rightarrow> error + (real \<times> edge) list" where
  "sort_keys metric [] = Inr []"
| "sort_keys metric ((e, d) # rest) =
     (case d metric of
        None \<Rightarrow> Inl (KeyError metric)
      | Some x \<Rightarrow>
          (case sort_keys metric rest of
             Inl err \<Rightarrow> Inl err
           | Inr ks \<Rightarrow> Inr ((num_of x, e) # ks)))"

definition sorted_edges :: "string \<Rightarrow> graph \<Rightarrow> error + edge list" where
  "sorted_edges metric g =
     (case sort_keys metric (edges g) of
        Inl err \<Rightarrow> Inl err
      | Inr ks \<Rightarrow> Inr (map snd (sort_key fst ks)))"

text \<open>The state of the selection loop: the caller's graph and the two local graphs.\<close>

record greedy_state =
  the_graph :: graph
  selected :: graph
  unselected :: graph

definition select_edge :: "string \<Rightarrow> edge \<Rightarrow> greedy_state \<Rightarrow> greedy_state" where
  "select_edge selected_key e s =
     (let u = fst e; v = snd e in
      if has_edge (unselected s) u v then
        (let g' = set_edge_attr (the_graph s) (u, v) selected_key (VBool True);
             sel' = add_edge (selected s) u v;
             un' = remove_edges_from (unselected s) (out_edges g' u);
             un'' = (if in_degree sel' v > 1
                     then remove_edges_from un' (in_edges un' v) else un')
         in \<lparr>the_graph = g', selected = sel', unselected = un''\<rparr>)
      else s)"

fun select_edges :: "string \<Rightarrow> edge list \<Rightarrow> greedy_state \<Rightarrow> greedy_state" where
  "select_edges selected_key [] s = s"
| "select_edges selected_key (e # es) s =
     select_edges selected_key es (select_edge selected_key e s)"

text \<open>
  \<open>node_threshold\<close> is \<open>None\<close> or a number; \<open>if node_threshold:\<close> is false for
  \<open>None\<close> and for zero.
\<close>

definition greedy_run ::
  "graph \<Rightarrow> string \<Rightarrow> string \<Rightarrow> real option \<Rightarrow> error + greedy_state" where
  "greedy_run g selected_key metric node_threshold =
     (if number_of_nodes g = 0
      then Inr \<lparr>the_graph = g, selected = empty_graph, unselected = empty_graph\<rparr>
      else
        (let unselected0 = \<lparr>nodes = nodes g, edges = edges g\<rparr>;
             g0 = set_edge_attributes g (VBool False) selected_key;
             dropped =
               (case node_threshold of
                  None \<Rightarrow> Inr unselected0
                | Some th \<Rightarrow>
                    if th \<noteq> 0
                    then remove_below_threshold th (nodes unselected0) unselected0
                    else Inr unselected0)
         in case dropped of
              Inl err \<Rightarrow> Inl err
            | Inr unselected1 \<Rightarrow>
                (case sorted_edges metric g0 of
                   Inl err \<Rightarrow> Inl err
                 | Inr es \<Rightarrow>
                     Inr (select_edges selected_key es
                            \<lparr>the_graph = g0, selected = empty_graph,
                             unselected = unselected1\<rparr>))))"

text \<open>What the caller sees: its graph, updated in place.\<close>

definition greedy_track ::
  "graph \<Rightarrow> string \<Rightarrow> string \<Rightarrow> real option \<Rightarrow> error + graph" where
  "greedy_track g selected_key metric node_threshold =
     (case greedy_run g selected_key metric node_threshold of
        Inl err \<Rightarrow> Inl err
      | Inr s \<Rightarrow> Inr (the_graph s))"

definition edge_flag :: "graph \<Rightarrow> string \<Rightarrow> edge \<Rightarrow> val option" where
  "edge_flag g key e = (case map_of (edges g) e of None \<Rightarrow> None | Some d \<Rightarrow> d key)"

definition is_selected :: "string \<Rightarrow> edge \<times> attrs \<Rightarrow> bool" where
  "is_selected key ed \<longleftrightarrow> snd ed key = Some (VBool True)"

definition selected_out_edges :: "graph \<Rightarrow> string \<Rightarrow> node \<Rightarrow> edge list" where
  "selected_out_edges g key n =
     map fst (filter (\<lambda>ed. fst (fst ed) = n \<and> is_selected key ed) (edges g))"

definition selected_in_edges :: "graph \<Rightarrow> string \<Rightarrow> node \<Rightarrow> edge list" where
  "selected_in_edges g key n =
     map fst (filter (\<lambda>ed. snd (fst ed) = n \<and> is_selected key ed) (edges g))"


text \<open>
  The nodes the threshold loop drops: those whose score is below a threshold that
  is given and not zero.
\<close>

definition dropped_nodes :: "graph \<Rightarrow> real option \<Rightarrow> node list" where
  "dropped_nodes g node_threshold =
     (case node_threshold of
        None \<Rightarrow> []
      | Some th \<Rightarrow>
          if th \<noteq> 0
          then map fst (filter (\<lambda>nd. case snd nd ''score'' of
                                      None \<Rightarrow> False | Some s \<Rightarrow> num_of s < th) (nodes g))
          else [])"

text \<open>Two edge entries are the same edge with the same attributes, \<open>key\<close> apart.\<close>

definition agree_except :: "string \<Rightarrow> edge \<times> attrs \<Rightarrow> edge \<times> attrs \<Rightarrow> bool" where
  "agree_except key ed ed' \<longleftrightarrow>
     fst ed' = fst ed \<and> (\<forall>k. k \<noteq> key \<longrightarrow> snd ed' k = snd ed k)"

text \<open>
  The invariant of the selection loop, over the edge ids \<open>K\<close> of the caller's graph:
  the selected edges are flagged and no others; a node with a selected outgoing
  edge has no candidate left; a node has at most two selected incoming edges, and
  at two it has no incoming candidate left.
\<close>

definition loop_inv :: "string \<Rightarrow> edge list \<Rightarrow> greedy_state \<Rightarrow> bool" where
  "loop_inv key K s \<longleftrightarrow>
     edge_ids (the_graph s) = K \<and>
     distinct (edge_ids (selected s)) \<and>
     set (edge_ids (selected s)) \<subseteq> set K \<and>
     set (edge_ids (unselected s)) \<subseteq> set K \<and>
     (\<forall>u v w. (u, v) \<in> set (edge_ids (selected s)) \<longrightarrow>
                (u, w) \<notin> set (edge_ids (unselected s))) \<and>
     (\<forall>u. length (out_edges (selected s) u) \<le> 1) \<and>
     (\<forall>v. in_degree (selected s) v \<le> 2) \<and>
     (\<forall>u v. 2 \<le> in_degree (selected s) v \<longrightarrow> (u, v) \<notin> set (edge_ids (unselected s))) \<and>
     (\<forall>ed \<in> set (edges (the_graph s)).
        snd ed key = Some (VBool (fst ed \<in> set (edge_ids (selected s)))))"

subsection \<open>Example graphs\<close>

text \<open>
  The scenario of the specification: a0 (id 0), b1 (id 1) and c1 (id 2), with the
  edges (b1, a0) and (c1, a0) carrying their distance under the name \<open>metric\<close>.
\<close>

definition scenario_graph :: "string \<Rightarrow> graph" where
  "scenario_graph metric =
     \<lparr>nodes = [(0, [''t'' \<mapsto> VNum 0, ''score'' \<mapsto> VNum 0.9]),
               (1, [''t'' \<mapsto> VNum 1, ''score'' \<mapsto> VNum 0.8]),
               (2, [''t'' \<mapsto> VNum 1, ''score'' \<mapsto> VNum 0.2])],
      edges = [((1, 0), [metric \<mapsto> VNum 1.0]),
               ((2, 0), [metric \<mapsto> VNum 5.0])]\<rparr>"

definition scenario_tracked :: "string \<Rightarrow> graph" where
  "scenario_tracked metric =
     \<lparr>nodes = [(0, [''t'' \<mapsto> VNum 0, ''score'' \<mapsto> VNum 0.9]),
               (1, [''t'' \<mapsto> VNum 1, ''score'' \<mapsto> VNum 0.8]),
               (2, [''t'' \<mapsto> VNum 1, ''score'' \<mapsto> VNum 0.2])],
      edges = [((1, 0), [metric \<mapsto> VNum 1.0, ''selected'' \<mapsto> VBool True]),
               ((2, 0), [metric \<mapsto> VNum 5.0, ''selected'' \<mapsto> VBool False])]\<rparr>"

text \<open>One cell in frame 0 and two in frame 1, each linked to it.\<close>

definition division_graph :: graph where
  "division_graph =
     \<lparr>nodes = [(0, [''t'' \<mapsto> VNum 0, ''score'' \<mapsto> VNum 0.9]),
               (1, [''t'' \<mapsto> VNum 1, ''score'' \<mapsto> VNum 0.8]),
               (2, [''t'' \<mapsto> VNum 1, ''score'' \<mapsto> VNum 0.7])],
      edges = [((1, 0), [''distance'' \<mapsto> VNum 1.0]),
               ((2, 0), [''distance'' \<mapsto> VNum 2.0])]\<rparr>"

definition division_tracked :: graph where
  "division_tracked =
     \<lparr>nodes = [(0, [''t'' \<mapsto> VNum 0, ''score'' \<mapsto> VNum 0.9]),
               (1, [''t'' \<mapsto> VNum 1, ''score'' \<mapsto> VNum 0.8]),
               (2, [''t'' \<mapsto> VNum 1, ''score'' \<mapsto> VNum 0.7])],
      edges = [((1, 0), [''distance'' \<mapsto> VNum 1.0, ''selected'' \<mapsto> VBool True]),
               ((2, 0), [''distance'' \<mapsto> VNum 2.0, ''selected'' \<mapsto> VBool True])]\<rparr>"


section \<open>Configuration\<close>

text \<open>
  The max_cell_move of a parameter set is one number, or a dictionary of numbers
  per dimension.
\<close>

datatype cell_move = Scalar val | PerDim "(string \<times> val) list"

text \<open>
  One parameter set. The names are the source's; \<open>context_size\<close> is the source's
  \<open>context\<close>. A cell cycle key is a string or \<open>None\<close>.
\<close>

record parameters =
  feature_func :: string
  weight_node_score :: real
  selection_constant :: real
  track_cost :: real
  max_cell_move :: cell_move
  weight_division :: real
  division_constant :: real
  weight_child :: real
  weight_continuation :: real
  weight_edge_score :: real
  cell_cycle_key :: "string option"
  block_size :: "int list"
  context_size :: "int list"

record solve_config =
  solver_type :: string
  check_node_close_to_roi :: bool
  write_struct_svm :: bool
  add_node_density_constraints :: bool
  parameters :: "parameters list"

record tracking_config =
  solve :: solve_config

text \<open>
  A region of interest as the cost functions read it: \<open>get_begin()\<close> and
  \<open>get_end()\<close>, the time dimension first.
\<close>

record roi =
  get_begin :: "int list"
  get_end :: "int list"

text \<open>What the cost functions read of a track graph: its first frame and its region.\<close>

record track_graph =
  graph_begin :: int
  graph_roi :: roi

section \<open>Cost functions (tracking/cost_functions.py)\<close>

text \<open>
  The feature functions: the identity, numpy's log and numpy's square, read on the
  reals: the logarithm for a positive score, and both without the rounding and
  the range of the machine numbers. The properties below read no value of a
  feature function.
\<close>

datatype feature = Noop | Log | Square

fun apply_feature :: "feature \<Rightarrow> real \<Rightarrow> real" where
  "apply_feature Noop x = x"
| "apply_feature Log x = ln x"
| "apply_feature Square x = x * x"

text \<open>A cost function maps a node or edge object to its list of costs, or raises.\<close>

type_synonym cost_fn = "attrs \<Rightarrow> error + real list"

definition score_times_weight_plus_th_costs_fn ::
  "real \<Rightarrow> real \<Rightarrow> string \<Rightarrow> feature \<Rightarrow> cost_fn" where
  "score_times_weight_plus_th_costs_fn weight threshold key ff obj =
     (case obj key of
        None \<Rightarrow> Inl (KeyError key)
      | Some x \<Rightarrow> Inr [apply_feature ff (num_of x) * weight, threshold])"

definition score_times_weight_costs_fn :: "real \<Rightarrow> string \<Rightarrow> feature \<Rightarrow> cost_fn" where
  "score_times_weight_costs_fn weight key ff obj =
     (case obj key of
        None \<Rightarrow> Inl (KeyError key)
      | Some x \<Rightarrow> Inr [apply_feature ff (num_of x) * weight])"

definition constant_costs_fn :: "real \<Rightarrow> (attrs \<Rightarrow> error + bool) \<Rightarrow> cost_fn" where
  "constant_costs_fn weight zero_if_true obj =
     (case zero_if_true obj of
        Inl err \<Rightarrow> Inl err
      | Inr b \<Rightarrow> Inr (if b then [0] else [weight]))"

text \<open>The default of \<open>zero_if_true\<close>: \<open>lambda _: False\<close>.\<close>

definition never :: "attrs \<Rightarrow> error + bool" where
  "never obj = Inr False"

definition is_nth_frame :: "int \<Rightarrow> string \<Rightarrow> attrs \<Rightarrow> error + bool" where
  "is_nth_frame n frame_key obj =
     (case obj frame_key of
        None \<Rightarrow> Inl (KeyError frame_key)
      | Some x \<Rightarrow> Inr (num_of x = of_int n))"

text \<open>
  \<open>min(distance.values())\<close> for a dictionary (ValueError when it is empty): the
  first of the smallest values.
\<close>

definition py_min :: "val \<Rightarrow> val \<Rightarrow> val" where
  "py_min item smallest = (if num_of item < num_of smallest then item else smallest)"

definition border_distance :: "cell_move \<Rightarrow> error + val" where
  "border_distance distance =
     (case distance of
        Scalar d \<Rightarrow> Inr d
      | PerDim kvs \<Rightarrow>
          (case map snd kvs of
             [] \<Rightarrow> Inl ValueError
           | x # xs \<Rightarrow> Inr (fold py_min xs x)))"

text \<open>
  The loop over \<open>enumerate(['z', 'y', 'x'])\<close>, returning at the first dimension
  in which the object is close to the border.
\<close>

fun is_close_loop ::
  "attrs \<Rightarrow> val \<Rightarrow> int list \<Rightarrow> int list \<Rightarrow> (nat \<times> string) list \<Rightarrow> error + bool" where
  "is_close_loop obj dst begin_zyx end_zyx [] = Inr False"
| "is_close_loop obj dst begin_zyx end_zyx ((index, axis) # rest) =
     (case obj axis of
        None \<Rightarrow> Inl (KeyError axis)
      | Some node_dim \<Rightarrow>
          if length begin_zyx \<le> index then Inl IndexError
          else if length end_zyx \<le> index then Inl IndexError
          else
            (case py_add node_dim dst of
               Inl err \<Rightarrow> Inl err
             | Inr upper \<Rightarrow>
                 if ge_int upper (end_zyx ! index) then Inr True
                 else
                   (case py_sub node_dim dst of
                      Inl err \<Rightarrow> Inl err
                    | Inr lower \<Rightarrow>
                        if lt_int lower (begin_zyx ! index) then Inr True
                        else is_close_loop obj dst begin_zyx end_zyx rest)))"

definition is_close_to_roi_border :: "roi \<Rightarrow> cell_move \<Rightarrow> attrs \<Rightarrow> error + bool" where
  "is_close_to_roi_border r distance obj =
     (case border_distance distance of
        Inl err \<Rightarrow> Inl err
      | Inr dst \<Rightarrow>
          is_close_loop obj dst (drop 1 (get_begin r)) (drop 1 (get_end r))
            [(0, ''z''), (1, ''y''), (2, ''x'')])"

text \<open>
  The \<open>zero_if_true\<close> of node_appear:
  \<open>is_nth_frame(graph.begin)(obj) or (check_node_close_to_roi and is_close(obj))\<close>,
  evaluated left to right as Python does.
\<close>

definition appear_is_free :: "tracking_config \<Rightarrow> parameters \<Rightarrow> track_graph \<Rightarrow> attrs \<Rightarrow> error + bool" where
  "appear_is_free config ps tg obj =
     (case is_nth_frame (graph_begin tg) ''t'' obj of
        Inl err \<Rightarrow> Inl err
      | Inr first \<Rightarrow>
          if first then Inr True
          else if check_node_close_to_roi (solve config)
               then is_close_to_roi_border (graph_roi tg) (max_cell_move ps) obj
               else Inr False)"

definition resolve_feature_func :: "string \<Rightarrow> error + feature" where
  "resolve_feature_func tag =
     (if tag = ''noop'' then Inr Noop
      else if tag = ''log'' then Inr Log
      else if tag = ''square'' then Inr Square
      else Inl (RuntimeError tag))"

definition get_default_node_indicator_costs ::
  "tracking_config \<Rightarrow> parameters \<Rightarrow> track_graph \<Rightarrow> error + (string \<rightharpoonup> cost_fn)" where
  "get_default_node_indicator_costs config ps tg =
     (case resolve_feature_func (feature_func ps) of
        Inl err \<Rightarrow> Inl err
      | Inr ff \<Rightarrow>
          (let fn_map =
                 [''node_selected'' \<mapsto>
                    score_times_weight_plus_th_costs_fn
                      (weight_node_score ps) (selection_constant ps) ''score'' ff,
                  ''node_appear'' \<mapsto>
                    constant_costs_fn (track_cost ps) (appear_is_free config ps tg)]
           in if solver_type (solve config) = ''basic''
              then Inr (fn_map(''node_split'' \<mapsto> constant_costs_fn 1 never))
              else if solver_type (solve config) = ''cell_state''
              then Inr (fn_map
                     (''node_split'' \<mapsto>
                        score_times_weight_plus_th_costs_fn
                          (weight_division ps) (division_constant ps) ''score_mother'' ff,
                      ''node_child'' \<mapsto>
                        score_times_weight_costs_fn (weight_child ps) ''score_daughter'' ff,
                      ''node_continuation'' \<mapsto>
                        score_times_weight_costs_fn
                          (weight_continuation ps) ''score_continuation'' ff))
              else Inr fn_map))"

definition get_default_edge_indicator_costs ::
  "tracking_config \<Rightarrow> parameters \<Rightarrow> error + (string \<rightharpoonup> cost_fn)" where
  "get_default_edge_indicator_costs config ps =
     (case resolve_feature_func (feature_func ps) of
        Inl err \<Rightarrow> Inl err
      | Inr ff \<Rightarrow>
          (let fn_map =
                 [''edge_selected'' \<mapsto>
                    score_times_weight_costs_fn (weight_edge_score ps) ''prediction_distance'' ff]
           in if solver_type (solve config) = ''basic'' then Inr fn_map else Inr fn_map))"




subsection \<open>Example configuration\<close>

definition example_parameters :: "string \<Rightarrow> parameters" where
  "example_parameters tag =
     \<lparr>feature_func = tag, weight_node_score = -13, selection_constant = 6,
      track_cost = 7, max_cell_move = Scalar (VNum 64), weight_division = -8,
      division_constant = 6, weight_child = 1, weight_continuation = -1,
      weight_edge_score = 1/4, cell_cycle_key = Some ''vgg'',
      block_size = [5, 100, 100, 100], context_size = [2, 50, 50, 50]\<rparr>"

definition example_config :: "string \<Rightarrow> bool \<Rightarrow> tracking_config" where
  "example_config st check =
     \<lparr>solve = \<lparr>solver_type = st, check_node_close_to_roi = check,
               write_struct_svm = False, add_node_density_constraints = False,
               parameters = [example_parameters ''noop'']\<rparr>\<rparr>"

definition example_track_graph :: track_graph where
  "example_track_graph =
     \<lparr>graph_begin = 0,
      graph_roi = \<lparr>get_begin = [0, - 128, - 128, - 128], get_end = [10, 128, 128, 128]\<rparr>\<rparr>"



section \<open>The ILP tracker's wrapper (tracking/track.py)\<close>

text \<open>
  \<open>[p.cell_cycle_key + "mother" for p in config.solve.parameters]\<close>: adding a
  string to \<open>None\<close> raises TypeError.
\<close>

fun cell_cycle_keys :: "parameters list \<Rightarrow> error + string list" where
  "cell_cycle_keys [] = Inr []"
| "cell_cycle_keys (p # ps) =
     (case cell_cycle_key p of
        None \<Rightarrow> Inl TypeError
      | Some k \<Rightarrow>
          (case cell_cycle_keys ps of
             Inl err \<Rightarrow> Inl err
           | Inr ks \<Rightarrow> Inr ((k @ ''mother'') # ks)))"

text \<open>The nodes that lack one of the keys, in the order of the graph.\<close>

definition to_remove :: "graph \<Rightarrow> string list \<Rightarrow> node list" where
  "to_remove g ks =
     map fst (filter (\<lambda>(n, d). list_ex (\<lambda>k. d k = None) ks) (nodes g))"

definition remove_missing :: "graph \<Rightarrow> string list \<Rightarrow> graph" where
  "remove_missing g ks = fold (\<lambda>n g'. remove_node g' n) (to_remove g ks) g"

text \<open>
  The track graph and the solver are not among the sources; their operations are
  parameters. \<open>'tg\<close> is the track graph and \<open>'sv\<close> the solver, which holds the
  track graph it writes the selection to.
\<close>

record ('tg, 'sv) solver_ops =
  TrackGraph :: "graph \<Rightarrow> string \<Rightarrow> error + 'tg"
  Solver :: "'tg \<Rightarrow> parameters \<Rightarrow> string \<Rightarrow> int list option \<Rightarrow> solve_config \<Rightarrow>
             int option \<Rightarrow> error + 'sv"
  update_objective :: "'sv \<Rightarrow> parameters \<Rightarrow> string \<Rightarrow> error + 'sv"
  solver_solve :: "'sv \<Rightarrow> error + 'sv"
  track_graph_edges :: "'sv \<Rightarrow> edge \<rightharpoonup> attrs"

text \<open>
  The copy of the selection into the caller's graph, for the edges that are in the
  track graph.
\<close>

fun copy_selection ::
  "string \<Rightarrow> (edge \<rightharpoonup> attrs) \<Rightarrow> (edge \<times> attrs) list \<Rightarrow> error + (edge \<times> attrs) list" where
  "copy_selection key tg_edges [] = Inr []"
| "copy_selection key tg_edges ((e, d) # rest) =
     (case tg_edges e of
        None \<Rightarrow>
          (case copy_selection key tg_edges rest of
             Inl err \<Rightarrow> Inl err
           | Inr es \<Rightarrow> Inr ((e, d) # es))
      | Some td \<Rightarrow>
          (case td key of
             None \<Rightarrow> Inl (KeyError key)
           | Some x \<Rightarrow>
               (case copy_selection key tg_edges rest of
                  Inl err \<Rightarrow> Inl err
                | Inr es \<Rightarrow> Inr ((e, d(key \<mapsto> x)) # es))))"

text \<open>The loop over \<open>zip(parameters, selected_key)\<close>; the solver is built once.\<close>

fun solve_loop ::
  "('tg, 'sv) solver_ops \<Rightarrow> 'tg \<Rightarrow> tracking_config \<Rightarrow> int list option \<Rightarrow> int option \<Rightarrow>
   (parameters \<times> string) list \<Rightarrow> 'sv option \<Rightarrow> graph \<Rightarrow> error + graph" where
  "solve_loop ops tg config frames block_id [] solver g = Inr g"
| "solve_loop ops tg config frames block_id ((parameter, key) # rest) solver g =
     (case (case solver of
              None \<Rightarrow> Solver ops tg parameter key frames (solve config) block_id
            | Some sv \<Rightarrow> update_objective ops sv parameter key) of
        Inl err \<Rightarrow> Inl err
      | Inr sv \<Rightarrow>
          (case solver_solve ops sv of
             Inl err \<Rightarrow> Inl err
           | Inr sv' \<Rightarrow>
               (case copy_selection key (track_graph_edges ops sv') (edges g) of
                  Inl err \<Rightarrow> Inl err
                | Inr es \<Rightarrow>
                    solve_loop ops tg config frames block_id rest (Some sv')
                      (g\<lparr>edges := es\<rparr>))))"

text \<open>The function from the check for an empty graph on.\<close>

definition track_solve ::
  "('tg, 'sv) solver_ops \<Rightarrow> graph \<Rightarrow> tracking_config \<Rightarrow> string list \<Rightarrow> string \<Rightarrow>
   int list option \<Rightarrow> int option \<Rightarrow> error + graph" where
  "track_solve ops g config selected_key frame_key frames block_id =
     (if number_of_nodes g = 0 then Inr g
      else if length (parameters (solve config)) \<noteq> length selected_key then Inl AssertionError
      else
        (case TrackGraph ops g frame_key of
           Inl err \<Rightarrow> Inl err
         | Inr tg \<Rightarrow>
             solve_loop ops tg config frames block_id
               (zip (parameters (solve config)) selected_key) None g))"

text \<open>
  \<open>track\<close>; the result is the caller's graph as the call leaves it.
  \<open>any(cell_cycle_keys)\<close> is true when one of the keys is not the empty string.
\<close>

definition track ::
  "('tg, 'sv) solver_ops \<Rightarrow> graph \<Rightarrow> tracking_config \<Rightarrow> string list \<Rightarrow> string \<Rightarrow>
   int list option \<Rightarrow> int option \<Rightarrow> error + graph" where
  "track ops g config selected_key frame_key frames block_id =
     (case cell_cycle_keys (parameters (solve config)) of
        Inl err \<Rightarrow> Inl err
      | Inr ks \<Rightarrow>
          track_solve ops
            (if list_ex (\<lambda>k. k \<noteq> []) ks then remove_missing g ks else g)
            config selected_key frame_key frames block_id)"

section \<open>The store and the block bookkeeping\<close>

text \<open>\<open>str\<close> of an integer.\<close>

function str_nat :: "nat \<Rightarrow> string" where
  "str_nat n =
     (if n < 10 then [''0123456789'' ! n]
      else str_nat (n div 10) @ [''0123456789'' ! (n mod 10)])"
  by pat_completeness auto
termination
  by (relation "measure id") auto

declare str_nat.simps [simp del]

definition str_int :: "int \<Rightarrow> string" where
  "str_int i = (if i < 0 then CHR ''-'' # str_nat (nat (- i)) else str_nat (nat i))"

text \<open>
  Modelled from the spec: the external store (CandidateDatabase and the collections
  that daisy_check_functions reads and writes are not among the sources). It holds
  the candidate graph with its attributes, the blocks marked done per step name
  and the steps marked fully done.
\<close>

record store =
  candidates :: graph
  blocks_done :: "(string \<times> int) set"
  steps_done :: "string set"

record 'r block =
  block_id :: int
  read_roi :: 'r
  write_roi :: 'r

text \<open>
  Modelled from the spec: \<open>checkDone(stepName, blockId)\<close> of daisy_check_functions,
  which is not among the sources.
\<close>

definition check_function :: "'r block \<Rightarrow> string \<Rightarrow> store \<Rightarrow> bool" where
  "check_function b step_name st \<longleftrightarrow> (step_name, block_id b) \<in> blocks_done st"

text \<open>
  Modelled from the spec: \<open>writeDone(stepName, blockId)\<close> of daisy_check_functions,
  which is not among the sources.
\<close>

definition write_done :: "'r block \<Rightarrow> string \<Rightarrow> store \<Rightarrow> store" where
  "write_done b step_name st =
     st\<lparr>blocks_done := insert (step_name, block_id b) (blocks_done st)\<rparr>"

text \<open>
  Modelled from the spec: \<open>checkAllDone(stepName)\<close> of daisy_check_functions, which
  is not among the sources.
\<close>

definition check_function_all_blocks :: "string \<Rightarrow> store \<Rightarrow> bool" where
  "check_function_all_blocks step_name st \<longleftrightarrow> step_name \<in> steps_done st"

text \<open>
  Modelled from the spec: \<open>writeAllDone(stepName)\<close> of daisy_check_functions, which
  is not among the sources.
\<close>

definition write_done_all_blocks :: "string \<Rightarrow> store \<Rightarrow> store" where
  "write_done_all_blocks step_name st = st\<lparr>steps_done := insert step_name (steps_done st)\<rparr>"

text \<open>
  Modelled from the spec: \<open>resetSelection(parametersId)\<close> of CandidateDatabase, which
  is not among the sources: it clears the selection flags written for that id, the
  attribute \<open>"selected_" + id\<close> of the nodes and edges.
\<close>

definition reset_selection :: "int \<Rightarrow> store \<Rightarrow> store" where
  "reset_selection pid st =
     st\<lparr>candidates :=
          \<lparr>nodes = map (\<lambda>(n, d). (n, d(''selected_'' @ str_int pid := None)))
                     (nodes (candidates st)),
           edges = map (\<lambda>(e, d). (e, d(''selected_'' @ str_int pid := None)))
                     (edges (candidates st))\<rparr>\<rparr>"

text \<open>The content of attributes.json.\<close>

record volume_attributes =
  resolution :: "int list"
  shape :: "int list"
  offset :: "int list"

text \<open>
  What the orchestrator calls outside the sources, as parameters: Python's hash of
  a frozenset of ids, the id the store issues for a parameter set (content-addressed,
  so a function of the parameter set), the reading of attributes.json, daisy's
  regions (\<open>'r\<close>) and scheduler, the graph queries of the store, and
  \<open>linajea.tracking.track\<close> as the package exports it.
\<close>

record 'r externals =
  hash_frozenset :: "int set \<Rightarrow> int"
  get_parameters_id :: "parameters \<Rightarrow> int"
  read_attributes :: "string \<Rightarrow> string \<Rightarrow> error + volume_attributes"
  Roi :: "int option list \<Rightarrow> int option list \<Rightarrow> 'r"
  intersect :: "'r \<Rightarrow> 'r \<Rightarrow> 'r"
  grow :: "'r \<Rightarrow> int list \<Rightarrow> int list \<Rightarrow> 'r"
  get_offset :: "'r \<Rightarrow> int list"
  get_shape :: "'r \<Rightarrow> int list"
  get_graph :: "store \<Rightarrow> 'r \<Rightarrow> string list \<Rightarrow> graph"
  update_edge_attrs :: "graph \<Rightarrow> 'r \<Rightarrow> string list \<Rightarrow> store \<Rightarrow> store"
  tracking_track :: "graph \<Rightarrow> parameters list \<Rightarrow> string list \<Rightarrow> int list \<Rightarrow> error + graph"
  run_blockwise ::
    "'r \<Rightarrow> 'r \<Rightarrow> 'r \<Rightarrow> ('r block \<Rightarrow> store \<Rightarrow> error + int \<times> store) \<Rightarrow>
     ('r block \<Rightarrow> store \<Rightarrow> bool) \<Rightarrow> nat \<Rightarrow> store \<Rightarrow> error + bool \<times> store"

section \<open>The blockwise orchestrator (process_blockwise/solve_blockwise.py)\<close>

text \<open>The step name as \<open>solve_blockwise\<close> computes it.\<close>

definition solve_blockwise_step_name :: "(int set \<Rightarrow> int) \<Rightarrow> int list \<Rightarrow> string" where
  "solve_blockwise_step_name hash parameters_id =
     (if length parameters_id = 1
      then ''solve_'' @ str_int (parameters_id ! 0)
      else ''solve_'' @ str_int (hash (set parameters_id)))"

text \<open>The step name as \<open>solve_in_block\<close> computes it.\<close>

definition solve_in_block_step_name :: "(int set \<Rightarrow> int) \<Rightarrow> int list \<Rightarrow> string" where
  "solve_in_block_step_name hash parameters_id =
     (if length parameters_id = 1
      then ''solve_'' @ str_int (parameters_id ! 0)
      else (let id' = hash (set parameters_id) in ''solve_'' @ str_int id'))"



definition selected_keys_of :: "int list \<Rightarrow> string list" where
  "selected_keys_of parameters_id = map (\<lambda>pid. ''selected_'' @ str_int pid) parameters_id"

text \<open>The region a block reads and the region it writes, limited to the solution region.\<close>

definition block_read_roi :: "'r externals \<Rightarrow> 'r block \<Rightarrow> 'r option \<Rightarrow> 'r" where
  "block_read_roi ext b solution_roi =
     (case solution_roi of
        Some sr \<Rightarrow> intersect ext (read_roi b) sr
      | None \<Rightarrow> read_roi b)"

definition block_write_roi :: "'r externals \<Rightarrow> 'r block \<Rightarrow> 'r option \<Rightarrow> 'r" where
  "block_write_roi ext b solution_roi =
     (case solution_roi of
        Some sr \<Rightarrow> intersect ext (write_roi b) sr
      | None \<Rightarrow> write_roi b)"

text \<open>The graph of a block: fetched, then without the nodes that have no frame.\<close>

definition block_graph :: "'r externals \<Rightarrow> store \<Rightarrow> 'r block \<Rightarrow> int list \<Rightarrow> 'r option \<Rightarrow> graph" where
  "block_graph ext st b parameters_id solution_roi =
     (let edge_attrs = selected_keys_of parameters_id @ [''prediction_distance'', ''distance''];
          g = get_graph ext st (block_read_roi ext b solution_roi) edge_attrs;
          dangling_nodes = map fst (filter (\<lambda>(n, d). d ''t'' = None) (nodes g))
      in remove_nodes_from g dangling_nodes)"

definition solve_in_block ::
  "'r externals \<Rightarrow> store \<Rightarrow> parameters list \<Rightarrow> 'r block \<Rightarrow> int list \<Rightarrow> 'r option \<Rightarrow>
   error + int \<times> store" where
  "solve_in_block ext st ps b parameters_id solution_roi =
     (let step_name = solve_in_block_step_name (hash_frozenset ext) parameters_id;
          read_roi' = block_read_roi ext b solution_roi;
          write_roi' = block_write_roi ext b solution_roi;
          selected_keys = selected_keys_of parameters_id;
          g = block_graph ext st b parameters_id solution_roi;
          num_edges = number_of_edges g
      in if num_edges = 0 then Inr (0, write_done b step_name st)
         else
           (case (get_offset ext read_roi', get_shape ext read_roi') of
              (o0 # _, s0 # _) \<Rightarrow>
                (case tracking_track ext g ps selected_keys [o0, o0 + s0] of
                   Inl err \<Rightarrow> Inl err
                 | Inr g' \<Rightarrow>
                     Inr (0, write_done b step_name
                               (update_edge_attrs ext g' write_roi' selected_keys st)))
            | _ \<Rightarrow> Inl IndexError))"

definition solve_blockwise ::
  "'r externals \<Rightarrow> store \<Rightarrow> string \<Rightarrow> parameters list \<Rightarrow> nat \<Rightarrow> (int \<times> int) option \<Rightarrow>
   'r option \<Rightarrow> bool \<Rightarrow> string \<Rightarrow> error + bool \<times> store" where
  "solve_blockwise ext st sample ps num_workers frames limit_to_roi from_scratch data_dir =
     (case ps of
        [] \<Rightarrow> Inl IndexError
      | p0 # _ \<Rightarrow>
          if \<not> list_all (\<lambda>p. block_size p = block_size p0 \<and> context_size p = context_size p0) ps
          then Inl AssertionError
          else
            (case read_attributes ext data_dir sample of
               Inl err \<Rightarrow> Inl err
             | Inr attributes \<Rightarrow>
                 (let voxel_size = resolution attributes;
                      source_roi = Roi ext (map Some (offset attributes))
                                     (map Some (map2 (*) (shape attributes) voxel_size));
                      parameters_id = map (get_parameters_id ext) ps;
                      st1 = (if from_scratch then fold reset_selection parameters_id st else st);
                      source_roi1 =
                        (case frames of
                           None \<Rightarrow> source_roi
                         | Some (b, e) \<Rightarrow>
                             intersect ext source_roi
                               (Roi ext [Some b, None, None, None]
                                        [Some (e - b), None, None, None]));
                      source_roi2 =
                        (case limit_to_roi of
                           None \<Rightarrow> source_roi1
                         | Some r \<Rightarrow> intersect ext source_roi1 r);
                      block_write = Roi ext [Some 0, Some 0, Some 0, Some 0]
                                      (map Some (block_size p0));
                      block_read = grow ext block_write (context_size p0) (context_size p0);
                      total_roi = grow ext source_roi2 (context_size p0) (context_size p0);
                      step_name = solve_blockwise_step_name (hash_frozenset ext) parameters_id
                  in if check_function_all_blocks step_name st1 then Inr (True, st1)
                     else
                       (case run_blockwise ext total_roi block_read block_write
                               (\<lambda>b s. solve_in_block ext s ps b parameters_id (Some source_roi2))
                               (\<lambda>b s. check_function b step_name s)
                               num_workers st1 of
                          Inl err \<Rightarrow> Inl err
                        | Inr (success, st2) \<Rightarrow>
                            Inr (success,
                                 if success then write_done_all_blocks step_name st2
                                 else st2)))))"

subsection \<open>Example store and collaborators\<close>

definition example_externals :: "unit externals" where
  "example_externals =
     \<lparr>hash_frozenset = (\<lambda>S. int (card S)),
      get_parameters_id = (\<lambda>p. 1),
      read_attributes = (\<lambda>data_dir sample.
         Inr \<lparr>resolution = [1, 5, 1, 1], shape = [10, 20, 100, 100], offset = [0, 0, 0, 0]\<rparr>),
      Roi = (\<lambda>off sh. ()),
      intersect = (\<lambda>a b. ()),
      grow = (\<lambda>a lo hi. ()),
      get_offset = (\<lambda>r. [0, 0, 0, 0]),
      get_shape = (\<lambda>r. [10, 100, 100, 100]),
      get_graph = (\<lambda>st r attrs. candidates st),
      update_edge_attrs = (\<lambda>g r keys st. st),
      tracking_track = (\<lambda>g ps keys frames. Inl AttributeError),
      run_blockwise = (\<lambda>total rd wr process check n st. Inr (False, st))\<rparr>"

text \<open>A store in which the step of parameter id 1 is done and one edge is selected.\<close>

definition solved_store :: store where
  "solved_store =
     \<lparr>candidates =
        \<lparr>nodes = [(0, [''t'' \<mapsto> VNum 0]), (1, [''t'' \<mapsto> VNum 1])],
         edges = [((1, 0), [''distance'' \<mapsto> VNum 1, ''selected_1'' \<mapsto> VBool True])]\<rparr>,
      blocks_done = {(''solve_1'', 0)},
      steps_done = {''solve_1''}\<rparr>"

text \<open>The same store with the selection of parameter id 1 cleared.\<close>

definition reset_store :: store where
  "reset_store =
     \<lparr>candidates =
        \<lparr>nodes = [(0, [''t'' \<mapsto> VNum 0]), (1, [''t'' \<mapsto> VNum 1])],
         edges = [((1, 0), [''distance'' \<mapsto> VNum 1])]\<rparr>,
      blocks_done = {(''solve_1'', 0)},
      steps_done = {''solve_1''}\<rparr>"

text \<open>A store whose candidates have no edge.\<close>

definition edgeless_store :: store where
  "edgeless_store =
     \<lparr>candidates = \<lparr>nodes = [(0, [''t'' \<mapsto> VNum 0]), (1, Map.empty)], edges = []\<rparr>,
      blocks_done = {},
      steps_done = {}\<rparr>"

definition example_block :: "unit block" where
  "example_block = \<lparr>block_id = 7, read_roi = (), write_roi = ()\<rparr>"


subsection \<open>Example solver and cell cycle configuration\<close>

definition example_solver_ops :: "(unit, unit) solver_ops" where
  "example_solver_ops =
     \<lparr>TrackGraph = (\<lambda>g frame_key. Inr ()),
      Solver = (\<lambda>tg p key frames cfg bid. Inr ()),
      update_objective = (\<lambda>sv p key. Inr ()),
      solver_solve = (\<lambda>sv. Inr ()),
      track_graph_edges = (\<lambda>sv. Map.empty)\<rparr>"

definition cycle_config :: "string option \<Rightarrow> tracking_config" where
  "cycle_config key =
     \<lparr>solve = \<lparr>solver_type = ''basic'', check_node_close_to_roi = False,
               write_struct_svm = False, add_node_density_constraints = False,
               parameters = [(example_parameters ''noop'')\<lparr>cell_cycle_key := key\<rparr>]\<rparr>\<rparr>"

definition cycle_graph :: graph where
  "cycle_graph =
     \<lparr>nodes = [(0, [''t'' \<mapsto> VNum 0, ''mother'' \<mapsto> VNum 0.1]),
               (1, [''t'' \<mapsto> VNum 1])],
      edges = [((1, 0), [''distance'' \<mapsto> VNum 1])]\<rparr>"

section \<open>Properties of the greedy tracker\<close>

subsection \<open>Edge ids under the graph operations\<close>

lemma edge_ids_set_edge_attr [simp]: "edge_ids (set_edge_attr g e k x) = edge_ids g"
  by (induction "edges g") (auto simp: edge_ids_def set_edge_attr_def split: prod.splits)

lemma edge_ids_set_edge_attributes [simp]: "edge_ids (set_edge_attributes g x k) = edge_ids g"
  by (auto simp: edge_ids_def set_edge_attributes_def split: prod.splits)

lemma nodes_set_edge_attr [simp]: "nodes (set_edge_attr g e k x) = nodes g"
  by (simp add: set_edge_attr_def)

lemma nodes_set_edge_attributes [simp]: "nodes (set_edge_attributes g x k) = nodes g"
  by (simp add: set_edge_attributes_def)

lemma edge_ids_remove_edges_from [simp]:
  "edge_ids (remove_edges_from g es) = filter (\<lambda>e. e \<notin> set es) (edge_ids g)"
  by (simp add: edge_ids_def remove_edges_from_def filter_map comp_def case_prod_unfold)

lemma edge_ids_add_node [simp]: "edge_ids (add_node g n) = edge_ids g"
  by (simp add: edge_ids_def add_node_def)

lemma edges_add_node [simp]: "edges (add_node g n) = edges g"
  by (simp add: add_node_def)

lemma edge_ids_add_edge [simp]:
  "edge_ids (add_edge g u v) =
     (if (u, v) \<in> set (edge_ids g) then edge_ids g else edge_ids g @ [(u, v)])"
  by (simp add: add_edge_def Let_def edge_ids_def)

lemma edge_ids_remove_node [simp]:
  "edge_ids (remove_node g n) = filter (\<lambda>e. fst e \<noteq> n \<and> snd e \<noteq> n) (edge_ids g)"
  by (simp add: edge_ids_def remove_node_def filter_map comp_def case_prod_unfold)

lemma flags_set_edge_attr:
  assumes "\<forall>ed \<in> set (edges g). snd ed key = Some (VBool (fst ed \<in> S))"
  shows "\<forall>ed \<in> set (edges (set_edge_attr g e key (VBool True))). snd ed key = Some (VBool (fst ed \<in> insert e S))"
  using assms by (auto simp: set_edge_attr_def split: if_splits)

lemma select_edge_inv:
  assumes "loop_inv key K s"
  shows "loop_inv key K (select_edge key e s)"
proof (cases "e \<in> set (edge_ids (unselected s))")
  case False
  then show ?thesis using assms by (simp add: select_edge_def has_edge_def Let_def)
next
  case True
  obtain u v where e: "e = (u, v)" by (cases e)
  let ?S = "edge_ids (selected s)" and ?U = "edge_ids (unselected s)"
  from assms have K: "edge_ids (the_graph s) = K" and dS: "distinct ?S"
    and SK: "set ?S \<subseteq> set K" and UK: "set ?U \<subseteq> set K"
    and excl: "\<And>a b c. (a, b) \<in> set ?S \<Longrightarrow> (a, c) \<notin> set ?U"
    and outd: "\<And>a. length (out_edges (selected s) a) \<le> 1"
    and ind: "\<And>b. in_degree (selected s) b \<le> 2"
    and full: "\<And>a b. 2 \<le> in_degree (selected s) b \<Longrightarrow> (a, b) \<notin> set ?U"
    and flags: "\<forall>ed \<in> set (edges (the_graph s)). snd ed key = Some (VBool (fst ed \<in> set ?S))"
    unfolding loop_inv_def by blast+
  have notS: "(u, v) \<notin> set ?S" using excl True e by blast
  have nout: "filter (\<lambda>e. fst e = u) ?S = []"
    using excl True e by (auto simp: filter_empty_conv)
  have lt2: "in_degree (selected s) v < 2" using full[of v u] True e by (simp add: not_le[symmetric]) blast
  let ?s' = "select_edge key e s"
  have S': "edge_ids (selected ?s') = ?S @ [(u, v)]"
    using True e notS by (simp add: select_edge_def has_edge_def Let_def)
  have G': "the_graph ?s' = set_edge_attr (the_graph s) (u, v) key (VBool True)"
    using True e by (simp add: select_edge_def has_edge_def Let_def)
  have U'sub: "set (edge_ids (unselected ?s')) \<subseteq> set ?U"
    using True e by (auto simp: select_edge_def has_edge_def Let_def)
  have U'u: "\<And>w. (u, w) \<notin> set (edge_ids (unselected ?s'))"
    using True e UK K by (auto simp: select_edge_def has_edge_def Let_def out_edges_def)
  have U'v: "\<And>a. 1 < in_degree (selected ?s') v \<Longrightarrow> (a, v) \<notin> set (edge_ids (unselected ?s'))"
    using True e by (auto simp: select_edge_def has_edge_def Let_def in_edges_def in_degree_def)
  have c1: "edge_ids (the_graph ?s') = K" using G' K by simp
  have c2: "distinct (edge_ids (selected ?s'))" using S' dS notS by simp
  have c3: "set (edge_ids (selected ?s')) \<subseteq> set K" using S' SK UK True e by auto
  have c4: "set (edge_ids (unselected ?s')) \<subseteq> set K" using U'sub UK by blast
  have c5: "\<forall>a b c. (a, b) \<in> set (edge_ids (selected ?s')) \<longrightarrow> (a, c) \<notin> set (edge_ids (unselected ?s'))"
    using S' excl U'sub U'u by auto
  have c6: "\<forall>a. length (out_edges (selected ?s') a) \<le> 1"
    using S' outd nout by (auto simp: out_edges_def)
  have c7: "\<forall>b. in_degree (selected ?s') b \<le> 2"
    using S' ind lt2 by (auto simp: in_degree_def in_edges_def)
  have c8: "\<forall>a b. 2 \<le> in_degree (selected ?s') b \<longrightarrow> (a, b) \<notin> set (edge_ids (unselected ?s'))"
  proof (intro allI impI)
    fix a b assume h: "2 \<le> in_degree (selected ?s') b"
    show "(a, b) \<notin> set (edge_ids (unselected ?s'))"
    proof (cases "b = v")
      case True then show ?thesis using U'v[of a] h by simp
    next
      case False
      then have "in_degree (selected ?s') b = in_degree (selected s) b"
        using S' by (simp add: in_degree_def in_edges_def)
      then show ?thesis using full[of b a] h U'sub by auto
    qed
  qed
  have c9: "\<forall>ed \<in> set (edges (the_graph ?s')). snd ed key = Some (VBool (fst ed \<in> set (edge_ids (selected ?s'))))"
    using flags_set_edge_attr[OF flags, of "(u, v)"] G' S' by simp
  show ?thesis
    unfolding loop_inv_def using c1 c2 c3 c4 c5 c6 c7 c8 c9 by blast
qed

lemma select_edges_inv:
  "loop_inv key K s \<Longrightarrow> loop_inv key K (select_edges key es s)"
  by (induction es arbitrary: s) (simp_all add: select_edge_inv)



lemma remove_below_threshold_edges:
  "remove_below_threshold th ns un = Inr un' \<Longrightarrow> set (edge_ids un') \<subseteq> set (edge_ids un)"
proof (induction ns arbitrary: un)
  case Nil
  then show ?case by simp
next
  case (Cons a ns)
  obtain n d where a: "a = (n, d)" by (cases a)
  show ?case
  proof (cases "d ''score''")
    case None
    with Cons.prems a show ?thesis by simp
  next
    case (Some sc)
    show ?thesis
    proof (cases "num_of sc < th")
      case True
      with Cons.prems a Some have "remove_below_threshold th ns (remove_node un n) = Inr un'" by simp
      from Cons.IH[OF this] show ?thesis by auto
    next
      case False
      with Cons.prems a Some have "remove_below_threshold th ns un = Inr un'" by simp
      from Cons.IH[OF this] show ?thesis .
    qed
  qed
qed

lemma loop_inv_init:
  assumes "set (edge_ids un) \<subseteq> set (edge_ids g)"
  shows "loop_inv key (edge_ids g)
           \<lparr>the_graph = set_edge_attributes g (VBool False) key, selected = empty_graph, unselected = un\<rparr>"
  using assms
  by (auto simp: loop_inv_def empty_graph_def edge_ids_def out_edges_def in_degree_def in_edges_def
      set_edge_attributes_def)

lemma length_filter_sub:
  assumes "distinct K" "distinct S" "set S \<subseteq> set K"
  shows "length (filter (\<lambda>e. P e \<and> e \<in> set S) K) = length (filter P S)"
proof -
  have "set (filter (\<lambda>e. P e \<and> e \<in> set S) K) = set (filter P S)" using assms(3) by auto
  moreover have "distinct (filter (\<lambda>e. P e \<and> e \<in> set S) K)" "distinct (filter P S)"
    using assms by simp_all
  ultimately show ?thesis by (metis distinct_card)
qed

lemma greedy_run_inv:
  assumes "greedy_run g key metric th = Inr s" "number_of_nodes g \<noteq> 0"
  shows "loop_inv key (edge_ids g) s"
proof -
  let ?un0 = "\<lparr>nodes = nodes g, edges = edges g\<rparr>"
  let ?g0 = "set_edge_attributes g (VBool False) key"
  from assms obtain un1 es where
    un1: "(case th of None \<Rightarrow> Inr ?un0
           | Some t \<Rightarrow> if t \<noteq> 0 then remove_below_threshold t (nodes ?un0) ?un0 else Inr ?un0) = Inr un1"
    and s: "s = select_edges key es \<lparr>the_graph = ?g0, selected = empty_graph, unselected = un1\<rparr>"
    by (auto simp: greedy_run_def Let_def split: sum.splits)
  have "set (edge_ids un1) \<subseteq> set (edge_ids ?un0)"
    using un1 remove_below_threshold_edges by (auto split: option.splits if_splits)
  then have "set (edge_ids un1) \<subseteq> set (edge_ids g)" by (simp add: edge_ids_def)
  from loop_inv_init[OF this] show ?thesis unfolding s by (rule select_edges_inv)
qed

lemma selected_edges_conv:
  assumes "\<forall>ed \<in> set (edges g). snd ed key = Some (VBool (fst ed \<in> S))"
  shows "map fst (filter (\<lambda>ed. P (fst ed) \<and> is_selected key ed) (edges g))
         = filter (\<lambda>e. P e \<and> e \<in> S) (edge_ids g)"
proof -
  have "filter (\<lambda>ed. P (fst ed) \<and> is_selected key ed) (edges g)
        = filter ((\<lambda>e. P e \<and> e \<in> S) \<circ> fst) (edges g)"
    using assms by (intro filter_cong) (auto simp: is_selected_def)
  then show ?thesis by (simp add: edge_ids_def filter_map)
qed


subsection \<open>What the run leaves unchanged\<close>

lemma agree_set_edge_attributes:
  "list_all2 (agree_except key) (edges g) (edges (set_edge_attributes g x key))"
  by (simp add: set_edge_attributes_def list_all2_map2 agree_except_def list_all2_same case_prod_unfold)

lemma agree_set_edge_attr:
  "list_all2 (agree_except key) (edges g) (edges (set_edge_attr g e key x))"
  by (simp add: set_edge_attr_def list_all2_map2 agree_except_def list_all2_same case_prod_unfold)

lemma agree_trans:
  "list_all2 (agree_except key) xs ys \<Longrightarrow> list_all2 (agree_except key) ys zs \<Longrightarrow>
   list_all2 (agree_except key) xs zs"
  by (rule list_all2_trans[where ?P1.0 = "agree_except key" and ?P2.0 = "agree_except key"])
     (auto simp: agree_except_def)

lemma select_edge_frame:
  "nodes (the_graph (select_edge key e s)) = nodes (the_graph s) \<and>
   list_all2 (agree_except key) (edges (the_graph s)) (edges (the_graph (select_edge key e s)))"
  by (auto simp: select_edge_def Let_def agree_set_edge_attr agree_except_def list_all2_same)

lemma select_edges_frame:
  "nodes (the_graph (select_edges key es s)) = nodes (the_graph s) \<and>
   list_all2 (agree_except key) (edges (the_graph s)) (edges (the_graph (select_edges key es s)))"
proof (induction es arbitrary: s)
  case Nil
  show ?case by (simp add: agree_except_def list_all2_same)
next
  case (Cons e es)
  show ?case using Cons.IH[of "select_edge key e s"] select_edge_frame[of key e s]
    by (auto intro: agree_trans)
qed

lemma select_edge_sub:
  "set (edge_ids (selected (select_edge key e s))) \<union> set (edge_ids (unselected (select_edge key e s)))
     \<subseteq> set (edge_ids (selected s)) \<union> set (edge_ids (unselected s))"
  by (auto simp: select_edge_def Let_def has_edge_def split: if_splits)

lemma select_edges_sub:
  "set (edge_ids (selected (select_edges key es s))) \<union> set (edge_ids (unselected (select_edges key es s)))
     \<subseteq> set (edge_ids (selected s)) \<union> set (edge_ids (unselected s))"
proof (induction es arbitrary: s)
  case Nil
  show ?case by simp
next
  case (Cons e es)
  show ?case using Cons.IH[of "select_edge key e s"] select_edge_sub[of key e s] by auto
qed

lemma remove_below_threshold_dropped:
  assumes "remove_below_threshold th ns un = Inr un'"
    and "(n, d) \<in> set ns" and "d ''score'' = Some sc" and "num_of sc < th"
    and "e \<in> set (edge_ids un')"
  shows "fst e \<noteq> n \<and> snd e \<noteq> n"
  using assms
proof (induction ns arbitrary: un)
  case Nil
  then show ?case by simp
next
  case (Cons a ns)
  obtain m dm where a: "a = (m, dm)" by (cases a)
  from Cons.prems(1) a obtain scm where scm: "dm ''score'' = Some scm"
    by (cases "dm ''score''") auto
  let ?un1 = "if num_of scm < th then remove_node un m else un"
  from Cons.prems(1) a scm have rest: "remove_below_threshold th ns ?un1 = Inr un'"
    by (simp split: if_splits)
  show ?case
  proof (cases "(n, d) \<in> set ns")
    case True
    from Cons.IH[OF rest True Cons.prems(3,4,5)] show ?thesis .
  next
    case False
    with Cons.prems(2) a have "m = n" "dm = d" by auto
    with scm Cons.prems(3,4) have "?un1 = remove_node un n" by simp
    with rest have "set (edge_ids un') \<subseteq> set (edge_ids (remove_node un n))"
      using remove_below_threshold_edges by metis
    with Cons.prems(5) show ?thesis by auto
  qed
qed


subsection \<open>Evaluating the example graphs\<close>

lemmas graph_ops = number_of_nodes_def set_edge_attributes_def set_edge_attr_def
  remove_node_def remove_edges_from_def add_edge_def add_node_def has_edge_def
  out_edges_def in_edges_def in_degree_def edge_ids_def node_ids_def empty_graph_def
  sorted_edges_def select_edge_def

lemma wf_division_graph: "wf_graph division_graph"
  by (simp add: wf_graph_def division_graph_def edge_ids_def node_ids_def)

lemma division_graph_run:
  "greedy_track division_graph ''selected'' ''distance'' None = Inr division_tracked"
  by (simp add: greedy_track_def greedy_run_def division_graph_def division_tracked_def
      graph_ops Let_def)

lemma scenario_run:
  "metric = ''distance'' \<or> metric = ''prediction_distance'' \<Longrightarrow>
   map_sum id (\<lambda>s. (the_graph s, node_ids (selected s), node_ids (unselected s)))
     (greedy_run (scenario_graph metric) ''selected'' metric (Some (1 / 2)))
   = Inr (scenario_tracked metric, [1, 0], [0, 1])"
  by (erule disjE)
     (simp_all add: greedy_run_def scenario_graph_def scenario_tracked_def graph_ops Let_def)

subsection \<open>The degree bound\<close>

text \<open>
  Claim C1, as the code has it: after \<open>greedy_track\<close> returns on a graph as networkx
  holds it, every node has at most one selected outgoing edge and at most two
  selected incoming edges, for every key, metric and threshold. (The other
  incoming candidates of a node are removed once it has two selected incoming
  edges, not one.)
\<close>

theorem greedy_degree_bound:
  assumes "wf_graph g" and "greedy_track g key metric th = Inr g'"
  shows "length (selected_out_edges g' key n) \<le> 1 \<and> length (selected_in_edges g' key n) \<le> 2"
proof (cases "number_of_nodes g = 0")
  case True
  then have "nodes g = []" by (simp add: number_of_nodes_def)
  then have "set (node_ids g) = {}" by (simp add: node_ids_def)
  moreover from assms(1) have "\<forall>e \<in> set (edge_ids g). fst e \<in> set (node_ids g)"
    unfolding wf_graph_def by blast
  ultimately have none: "\<And>e. e \<in> set (edge_ids g) \<Longrightarrow> False" by (metis empty_iff)
  have "edge_ids g = []"
  proof (cases "edge_ids g")
    case Nil
    then show ?thesis .
  next
    case (Cons e es)
    then have "e \<in> set (edge_ids g)" by simp
    then show ?thesis using none by blast
  qed
  then have "edges g = []" by (simp add: edge_ids_def)
  moreover from True assms(2) have "g' = g" by (auto simp: greedy_track_def greedy_run_def)
  ultimately show ?thesis by (simp add: selected_out_edges_def selected_in_edges_def)
next
  case False
  from assms(2) obtain s where run: "greedy_run g key metric th = Inr s" and g': "g' = the_graph s"
    by (auto simp: greedy_track_def split: sum.splits)
  let ?S = "edge_ids (selected s)"
  from greedy_run_inv[OF run False] have inv: "loop_inv key (edge_ids g) s" .
  then have K: "edge_ids g' = edge_ids g" and dS: "distinct ?S" and SK: "set ?S \<subseteq> set (edge_ids g)"
    and outd: "length (out_edges (selected s) n) \<le> 1" and ind: "in_degree (selected s) n \<le> 2"
    and flags: "\<forall>ed \<in> set (edges g'). snd ed key = Some (VBool (fst ed \<in> set ?S))"
    unfolding loop_inv_def g' by blast+
  have dK: "distinct (edge_ids g)" using assms(1) by (simp add: wf_graph_def)
  have "selected_out_edges g' key n = filter (\<lambda>e. fst e = n \<and> e \<in> set ?S) (edge_ids g)"
    unfolding selected_out_edges_def using selected_edges_conv[OF flags, of "\<lambda>e. fst e = n"] K by simp
  then have o: "length (selected_out_edges g' key n) = length (out_edges (selected s) n)"
    using length_filter_sub[OF dK dS SK] by (simp add: out_edges_def)
  have "selected_in_edges g' key n = filter (\<lambda>e. snd e = n \<and> e \<in> set ?S) (edge_ids g)"
    unfolding selected_in_edges_def using selected_edges_conv[OF flags, of "\<lambda>e. snd e = n"] K by simp
  then have i: "length (selected_in_edges g' key n) = in_degree (selected s) n"
    using length_filter_sub[OF dK dS SK] by (simp add: in_degree_def in_edges_def)
  show ?thesis using o i outd ind by simp
qed


theorem greedy_degree_bound_witness:
  "wf_graph division_graph \<and>
   greedy_track division_graph ''selected'' ''distance'' None = Inr division_tracked \<and>
   length (selected_out_edges division_tracked ''selected'' 1) \<le> 1 \<and>
   length (selected_in_edges division_tracked ''selected'' 0) \<le> 2"
  using greedy_degree_bound[OF wf_division_graph division_graph_run, where n = 1]
    greedy_degree_bound[OF wf_division_graph division_graph_run, where n = 0]
    wf_division_graph division_graph_run
  by simp

text \<open>
  Claim C1 as stated fails: in the graph of one cell with two candidate children,
  both edges into node 0 are selected.
\<close>

theorem greedy_in_degree_counterexample:
  "wf_graph division_graph \<and>
   greedy_track division_graph ''selected'' ''distance'' None = Inr division_tracked \<and>
   selected_in_edges division_tracked ''selected'' 0 = [(1, 0), (2, 0)] \<and>
   \<not> length (selected_in_edges division_tracked ''selected'' 0) \<le> 1"
  by (simp add: wf_division_graph division_graph_run selected_in_edges_def division_tracked_def
      is_selected_def)

subsection \<open>The scenario\<close>

text \<open>
  Claim C8: on the scenario graph with node_threshold 0.5, under either metric,
  the run drops c1 (node 2 is no node of \<open>unselected\<close> any more), sets the flag of
  edge (b1, a0) to true and the flag of edge (c1, a0) to false, and the nodes of
  the selected graph are b1 and a0, not c1. (The run writes no node attribute; a
  node is selected when it is a node of the selected graph.)
\<close>

theorem greedy_scenario:
  "map_sum id (\<lambda>s. (the_graph s, node_ids (selected s), node_ids (unselected s)))
     (greedy_run (scenario_graph ''prediction_distance'') ''selected'' ''prediction_distance''
        (Some (1 / 2)))
   = Inr (scenario_tracked ''prediction_distance'', [1, 0], [0, 1]) \<and>
   map_sum id (\<lambda>s. (the_graph s, node_ids (selected s), node_ids (unselected s)))
     (greedy_run (scenario_graph ''distance'') ''selected'' ''distance'' (Some (1 / 2)))
   = Inr (scenario_tracked ''distance'', [1, 0], [0, 1]) \<and>
   greedy_track (scenario_graph ''distance'') ''selected'' ''distance'' (Some (1 / 2))
   = Inr (scenario_tracked ''distance'') \<and>
   edge_flag (scenario_tracked ''distance'') ''selected'' (1, 0) = Some (VBool True) \<and>
   edge_flag (scenario_tracked ''distance'') ''selected'' (2, 0) = Some (VBool False) \<and>
   dropped_nodes (scenario_graph ''distance'') (Some (1 / 2)) = [2]"
proof -
  have p: "map_sum id (\<lambda>s. (the_graph s, node_ids (selected s), node_ids (unselected s)))
     (greedy_run (scenario_graph ''prediction_distance'') ''selected'' ''prediction_distance''
        (Some (1 / 2)))
   = Inr (scenario_tracked ''prediction_distance'', [1, 0], [0, 1])"
    by (rule scenario_run) simp
  have d: "map_sum id (\<lambda>s. (the_graph s, node_ids (selected s), node_ids (unselected s)))
     (greedy_run (scenario_graph ''distance'') ''selected'' ''distance'' (Some (1 / 2)))
   = Inr (scenario_tracked ''distance'', [1, 0], [0, 1])"
    by (rule scenario_run) simp
  from d have t: "greedy_track (scenario_graph ''distance'') ''selected'' ''distance'' (Some (1 / 2))
   = Inr (scenario_tracked ''distance'')"
    by (cases "greedy_run (scenario_graph ''distance'') ''selected'' ''distance'' (Some (1 / 2))")
       (simp_all add: greedy_track_def)
  have f: "edge_flag (scenario_tracked ''distance'') ''selected'' (1, 0) = Some (VBool True)"
      "edge_flag (scenario_tracked ''distance'') ''selected'' (2, 0) = Some (VBool False)"
    by (simp_all add: edge_flag_def scenario_tracked_def)
  have dr: "dropped_nodes (scenario_graph ''distance'') (Some (1 / 2)) = [2]"
    by (simp add: dropped_nodes_def scenario_graph_def)
  from p d t f dr show ?thesis by (intro conjI)
qed

subsection \<open>The frame of the run\<close>

text \<open>
  Claim C9: when the graph has a node and \<open>greedy_track\<close> returns, the nodes are as
  they were, every edge is the same edge with the same attributes apart from the
  selected key, every edge carries a boolean under the selected key, true exactly
  for the edges the loop selected, and false for every edge at a node that the
  threshold dropped.
\<close>

theorem greedy_track_frame:
  assumes "number_of_nodes g \<noteq> 0" and "greedy_run g key metric th = Inr s"
  shows "greedy_track g key metric th = Inr (the_graph s) \<and>
         nodes (the_graph s) = nodes g \<and>
         list_all2 (agree_except key) (edges g) (edges (the_graph s)) \<and>
         (\<forall>ed \<in> set (edges (the_graph s)).
            snd ed key = Some (VBool (fst ed \<in> set (edge_ids (selected s))))) \<and>
         (\<forall>ed \<in> set (edges (the_graph s)).
            fst (fst ed) \<in> set (dropped_nodes g th) \<or> snd (fst ed) \<in> set (dropped_nodes g th) \<longrightarrow>
            snd ed key = Some (VBool False))"
proof -
  let ?un0 = "\<lparr>nodes = nodes g, edges = edges g\<rparr>"
  let ?g0 = "set_edge_attributes g (VBool False) key"
  from assms obtain un1 es where
    un1: "(case th of None \<Rightarrow> Inr ?un0
           | Some t \<Rightarrow> if t \<noteq> 0 then remove_below_threshold t (nodes ?un0) ?un0 else Inr ?un0) = Inr un1"
    and s: "s = select_edges key es \<lparr>the_graph = ?g0, selected = empty_graph, unselected = un1\<rparr>"
    by (auto simp: greedy_run_def Let_def split: sum.splits)
  have c0: "greedy_track g key metric th = Inr (the_graph s)"
    using assms(2) by (simp add: greedy_track_def)
  have c1: "nodes (the_graph s) = nodes g"
    unfolding s using select_edges_frame[of key es] by simp
  have c2: "list_all2 (agree_except key) (edges g) (edges (the_graph s))"
    unfolding s using select_edges_frame[of key es "\<lparr>the_graph = ?g0, selected = empty_graph, unselected = un1\<rparr>"]
      agree_set_edge_attributes[of key g "VBool False"]
    by (auto intro: agree_trans)
  from greedy_run_inv[OF assms(2,1)]
  have c3: "\<forall>ed \<in> set (edges (the_graph s)).
            snd ed key = Some (VBool (fst ed \<in> set (edge_ids (selected s))))"
    unfolding loop_inv_def by blast
  have sel: "set (edge_ids (selected s)) \<subseteq> set (edge_ids un1)"
    unfolding s using select_edges_sub[of key es "\<lparr>the_graph = ?g0, selected = empty_graph, unselected = un1\<rparr>"]
    by (auto simp: empty_graph_def edge_ids_def)
  have c4: "\<forall>ed \<in> set (edges (the_graph s)).
            fst (fst ed) \<in> set (dropped_nodes g th) \<or> snd (fst ed) \<in> set (dropped_nodes g th) \<longrightarrow>
            snd ed key = Some (VBool False)"
  proof (intro ballI impI)
    fix ed assume ed: "ed \<in> set (edges (the_graph s))"
      and inc: "fst (fst ed) \<in> set (dropped_nodes g th) \<or> snd (fst ed) \<in> set (dropped_nodes g th)"
    from inc obtain n where n: "n \<in> set (dropped_nodes g th)" and at: "fst (fst ed) = n \<or> snd (fst ed) = n"
      by blast
    from n obtain t d sc where th: "th = Some t" "t \<noteq> 0" and nd: "(n, d) \<in> set (nodes g)"
      and sc: "d ''score'' = Some sc" "num_of sc < t"
      by (auto simp: dropped_nodes_def split: option.splits if_splits)
    from un1 th have "remove_below_threshold t (nodes g) ?un0 = Inr un1" by simp
    from remove_below_threshold_dropped[OF this nd sc] at
    have "fst ed \<notin> set (edge_ids un1)" by blast
    with sel have "fst ed \<notin> set (edge_ids (selected s))" by blast
    with c3 ed show "snd ed key = Some (VBool False)" by simp
  qed
  show ?thesis using c0 c1 c2 c3 c4 by blast
qed


theorem greedy_track_frame_witness:
  "number_of_nodes (scenario_graph ''distance'') \<noteq> 0 \<and>
   \<not> isl (greedy_run (scenario_graph ''distance'') ''selected'' ''distance'' (Some (1 / 2))) \<and>
   nodes (the_graph (projr (greedy_run (scenario_graph ''distance'') ''selected'' ''distance''
      (Some (1 / 2))))) = nodes (scenario_graph ''distance'') \<and>
   list_all2 (agree_except ''selected'') (edges (scenario_graph ''distance''))
     (edges (the_graph (projr (greedy_run (scenario_graph ''distance'') ''selected'' ''distance''
      (Some (1 / 2))))))"
proof -
  let ?r = "greedy_run (scenario_graph ''distance'') ''selected'' ''distance'' (Some (1 / 2))"
  have n: "number_of_nodes (scenario_graph ''distance'') \<noteq> 0"
    by (simp add: number_of_nodes_def scenario_graph_def)
  have "map_sum id (\<lambda>s. (the_graph s, node_ids (selected s), node_ids (unselected s))) ?r
        = Inr (scenario_tracked ''distance'', [1, 0], [0, 1])"
    by (rule scenario_run) simp
  then have i: "\<not> isl ?r" by (cases ?r) simp_all
  then have r: "?r = Inr (projr ?r)" by simp
  from greedy_track_frame[OF n r] n i show ?thesis by (intro conjI) (elim conjE, assumption)+
qed


section \<open>Properties of the cost functions\<close>
















lemma resolve_unknown:
  "tag \<notin> {''noop'', ''log'', ''square''} \<Longrightarrow> resolve_feature_func tag = Inl (RuntimeError tag)"
  by (simp add: resolve_feature_func_def)

lemma resolve_known:
  "tag \<in> {''noop'', ''log'', ''square''} \<Longrightarrow> \<exists>ff. resolve_feature_func tag = Inr ff"
  by (elim insertE emptyE) (simp_all add: resolve_feature_func_def)

lemma node_costs_basic:
  assumes "resolve_feature_func (feature_func ps) = Inr ff" and "solver_type (solve config) = ''basic''"
  shows "\<exists>fn_map. get_default_node_indicator_costs config ps tg = Inr fn_map \<and>
           fn_map ''node_split'' = Some (constant_costs_fn 1 never)"
  using assms by (simp add: get_default_node_indicator_costs_def Let_def)

lemma node_costs_other:
  assumes "resolve_feature_func (feature_func ps) = Inr ff"
    and "solver_type (solve config) \<noteq> ''basic''" and "solver_type (solve config) \<noteq> ''cell_state''"
  shows "\<exists>fn_map. get_default_node_indicator_costs config ps tg = Inr fn_map \<and>
           dom fn_map = {''node_selected'', ''node_appear''}"
proof -
  have "dom [''node_selected'' \<mapsto> a, ''node_appear'' \<mapsto> b] = {''node_selected'', ''node_appear''}"
    for a b :: cost_fn
    by (simp add: insert_commute)
  with assms show ?thesis by (simp add: get_default_node_indicator_costs_def Let_def)
qed

lemma node_costs_cell_state:
  assumes "resolve_feature_func (feature_func ps) = Inr ff"
    and "solver_type (solve config) = ''cell_state''"
  shows "\<exists>fn_map. get_default_node_indicator_costs config ps tg = Inr fn_map"
  using assms by (simp add: get_default_node_indicator_costs_def Let_def)

lemma node_costs_returned:
  assumes "resolve_feature_func (feature_func ps) = Inr ff"
  shows "\<exists>fn_map. get_default_node_indicator_costs config ps tg = Inr fn_map"
  using assms by (simp add: get_default_node_indicator_costs_def Let_def)

lemma constant_one: "constant_costs_fn 1 never obj = Inr [1]"
  by (simp add: constant_costs_fn_def never_def)



subsection \<open>The appear cost\<close>



subsection \<open>The solver type\<close>

text \<open>
  Claim C4: with a recognized feature function, the map is returned for every
  solver type; for "basic" its node_split is the constant cost [1] on every
  object, and for a solver type that is neither "basic" nor "cell_state" it holds
  node_selected and node_appear only.
\<close>

theorem solver_type_indicators:
  assumes "feature_func ps \<in> {''noop'', ''log'', ''square''}"
  shows "\<exists>fn_map. get_default_node_indicator_costs config ps tg = Inr fn_map \<and>
     (solver_type (solve config) = ''basic'' \<longrightarrow>
        (\<exists>f. fn_map ''node_split'' = Some f \<and> (\<forall>obj. f obj = Inr [1]))) \<and>
     (solver_type (solve config) \<noteq> ''basic'' \<and> solver_type (solve config) \<noteq> ''cell_state'' \<longrightarrow>
        dom fn_map = {''node_selected'', ''node_appear''})"
proof -
  from resolve_known[OF assms] obtain ff where ff: "resolve_feature_func (feature_func ps) = Inr ff" ..
  consider (basic) "solver_type (solve config) = ''basic''"
    | (cell) "solver_type (solve config) \<noteq> ''basic''" "solver_type (solve config) = ''cell_state''"
    | (other) "solver_type (solve config) \<noteq> ''basic''" "solver_type (solve config) \<noteq> ''cell_state''"
    by blast
  then show ?thesis
  proof cases
    case basic
    from node_costs_basic[OF ff basic] obtain fn_map where
      "get_default_node_indicator_costs config ps tg = Inr fn_map"
      "fn_map ''node_split'' = Some (constant_costs_fn 1 never)" by blast
    with basic constant_one show ?thesis by metis
  next
    case cell
    from node_costs_cell_state[OF ff cell(2)] obtain fn_map where
      "get_default_node_indicator_costs config ps tg = Inr fn_map" by blast
    with cell show ?thesis by metis
  next
    case other
    from node_costs_other[OF ff other] obtain fn_map where
      "get_default_node_indicator_costs config ps tg = Inr fn_map"
      "dom fn_map = {''node_selected'', ''node_appear''}" by blast
    with other show ?thesis by metis
  qed
qed


theorem solver_type_indicators_witness:
  "(\<exists>fn_map f. get_default_node_indicator_costs (example_config ''basic'' False)
        (example_parameters ''square'') example_track_graph = Inr fn_map \<and>
      fn_map ''node_split'' = Some f \<and> f Map.empty = Inr [1]) \<and>
   (\<exists>fn_map. get_default_node_indicator_costs (example_config ''greedy'' False)
        (example_parameters ''square'') example_track_graph = Inr fn_map \<and>
      dom fn_map = {''node_selected'', ''node_appear''})"
proof -
  have ff: "feature_func (example_parameters ''square'') \<in> {''noop'', ''log'', ''square''}"
    by (simp add: example_parameters_def)
  have b: "solver_type (solve (example_config ''basic'' False)) = ''basic''"
    by (simp add: example_config_def)
  have g: "solver_type (solve (example_config ''greedy'' False)) \<noteq> ''basic''"
      "solver_type (solve (example_config ''greedy'' False)) \<noteq> ''cell_state''"
    by (simp_all add: example_config_def)
  from solver_type_indicators[OF ff, of "example_config ''basic'' False" example_track_graph]
  obtain m1 where m1: "get_default_node_indicator_costs (example_config ''basic'' False)
        (example_parameters ''square'') example_track_graph = Inr m1"
    and s1: "solver_type (solve (example_config ''basic'' False)) = ''basic'' \<longrightarrow>
        (\<exists>f. m1 ''node_split'' = Some f \<and> (\<forall>obj. f obj = Inr [1]))"
    by (elim exE conjE)
  from s1 b obtain f where f: "m1 ''node_split'' = Some f" "f Map.empty = Inr [1]"
    by (elim impE exE conjE allE)
  from solver_type_indicators[OF ff, of "example_config ''greedy'' False" example_track_graph]
  obtain m2 where m2: "get_default_node_indicator_costs (example_config ''greedy'' False)
        (example_parameters ''square'') example_track_graph = Inr m2"
    and s2: "solver_type (solve (example_config ''greedy'' False)) \<noteq> ''basic'' \<and>
       solver_type (solve (example_config ''greedy'' False)) \<noteq> ''cell_state'' \<longrightarrow>
        dom m2 = {''node_selected'', ''node_appear''}"
    by (elim exE conjE)
  from s2 g have d: "dom m2 = {''node_selected'', ''node_appear''}" by (elim impE) (rule conjI)
  show ?thesis
    by (intro conjI exI) (rule m1 f m2 d)+
qed


subsection \<open>The feature function\<close>

text \<open>
  Claim C7: with a feature_func tag other than "noop", "log" and "square", both
  \<open>get_default_node_indicator_costs\<close> and \<open>get_default_edge_indicator_costs\<close>
  raise RuntimeError and return no map; with one of the three tags both return a
  map.
\<close>

theorem feature_func_fatal:
  "(feature_func ps \<notin> {''noop'', ''log'', ''square''} \<longrightarrow>
      get_default_node_indicator_costs config ps tg = Inl (RuntimeError (feature_func ps)) \<and>
      get_default_edge_indicator_costs config ps = Inl (RuntimeError (feature_func ps))) \<and>
   (feature_func ps \<in> {''noop'', ''log'', ''square''} \<longrightarrow>
      (\<exists>fn_map. get_default_node_indicator_costs config ps tg = Inr fn_map) \<and>
      (\<exists>fn_map. get_default_edge_indicator_costs config ps = Inr fn_map))"
proof (intro conjI impI)
  assume "feature_func ps \<notin> {''noop'', ''log'', ''square''}"
  then have u: "resolve_feature_func (feature_func ps) = Inl (RuntimeError (feature_func ps))"
    by (rule resolve_unknown)
  show "get_default_node_indicator_costs config ps tg = Inl (RuntimeError (feature_func ps))"
    by (simp add: get_default_node_indicator_costs_def u)
  show "get_default_edge_indicator_costs config ps = Inl (RuntimeError (feature_func ps))"
    by (simp add: get_default_edge_indicator_costs_def u)
next
  assume "feature_func ps \<in> {''noop'', ''log'', ''square''}"
  from resolve_known[OF this] obtain ff where ff: "resolve_feature_func (feature_func ps) = Inr ff" ..
  show "\<exists>fn_map. get_default_node_indicator_costs config ps tg = Inr fn_map"
    using ff by (rule node_costs_returned)
  show "\<exists>fn_map. get_default_edge_indicator_costs config ps = Inr fn_map"
    by (simp add: get_default_edge_indicator_costs_def ff Let_def)
qed

theorem feature_func_fatal_witness:
  "get_default_node_indicator_costs (example_config ''basic'' True) (example_parameters ''cube'')
      example_track_graph = Inl (RuntimeError ''cube'') \<and>
   get_default_edge_indicator_costs (example_config ''basic'' True) (example_parameters ''cube'')
      = Inl (RuntimeError ''cube'') \<and>
   (\<exists>fn_map. get_default_node_indicator_costs (example_config ''basic'' True)
      (example_parameters ''log'') example_track_graph = Inr fn_map) \<and>
   (\<exists>fn_map. get_default_edge_indicator_costs (example_config ''basic'' True)
      (example_parameters ''log'') = Inr fn_map)"
proof -
  have c: "feature_func (example_parameters ''cube'') \<notin> {''noop'', ''log'', ''square''}"
    and cn: "feature_func (example_parameters ''cube'') = ''cube''"
    and l: "feature_func (example_parameters ''log'') \<in> {''noop'', ''log'', ''square''}"
    by (simp_all add: example_parameters_def)
  note bad = feature_func_fatal[of "example_parameters ''cube''" "example_config ''basic'' True"
      example_track_graph, THEN conjunct1, rule_format, OF c, unfolded cn]
  note good = feature_func_fatal[of "example_parameters ''log''" "example_config ''basic'' True"
      example_track_graph, THEN conjunct2, rule_format, OF l]
  show ?thesis
    by (intro conjI) (rule bad[THEN conjunct1] bad[THEN conjunct2] good[THEN conjunct1] good[THEN conjunct2])+
qed



section \<open>Properties of the orchestrator\<close>

lemma str_int_1: "str_int 1 = ''1''"
  by (simp add: str_int_def str_nat.simps)

lemma block_graph_indep [simp]:
  "block_graph (ext\<lparr>tracking_track := t, update_edge_attrs := u\<rparr>) st b ids sr
   = block_graph ext st b ids sr"
  by (simp add: block_graph_def block_read_roi_def split: option.splits)




subsection \<open>The step name\<close>





subsection \<open>A block without edges\<close>

text \<open>
  Claim C5: when the graph of a block, fetched and without the nodes that have no
  frame, has no edge, \<open>solve_in_block\<close> returns 0 and a store in which the block is
  marked done under the step name and nothing else has changed; the result does
  not depend on the tracker or on the writing of edge attributes, which are not
  called.
\<close>

theorem solve_in_block_no_edges:
  assumes "number_of_edges (block_graph ext st b parameters_id solution_roi) = 0"
  shows "solve_in_block ext st ps b parameters_id solution_roi
           = Inr (0, write_done b (solve_in_block_step_name (hash_frozenset ext) parameters_id) st) \<and>
         (\<forall>t u. solve_in_block (ext\<lparr>tracking_track := t, update_edge_attrs := u\<rparr>) st ps b
                   parameters_id solution_roi
                 = solve_in_block ext st ps b parameters_id solution_roi) \<and>
         candidates (write_done b (solve_in_block_step_name (hash_frozenset ext) parameters_id) st)
           = candidates st \<and>
         check_function b (solve_in_block_step_name (hash_frozenset ext) parameters_id)
           (write_done b (solve_in_block_step_name (hash_frozenset ext) parameters_id) st)"
  using assms
  by (simp add: solve_in_block_def Let_def write_done_def check_function_def)


theorem solve_in_block_no_edges_witness:
  "number_of_edges (block_graph example_externals edgeless_store example_block [1] None) = 0 \<and>
   solve_in_block example_externals edgeless_store [example_parameters ''noop''] example_block [1] None
     = Inr (0, edgeless_store\<lparr>blocks_done := {(''solve_1'', 7)}\<rparr>)"
proof -
  have e: "number_of_edges (block_graph example_externals edgeless_store example_block [1] None) = 0"
    by (simp add: block_graph_def example_externals_def edgeless_store_def remove_nodes_from_def
        number_of_edges_def Let_def)
  have w: "write_done example_block
             (solve_in_block_step_name (hash_frozenset example_externals) [1]) edgeless_store
           = edgeless_store\<lparr>blocks_done := {(''solve_1'', 7)}\<rparr>"
    by (simp add: write_done_def solve_in_block_step_name_def str_int_1 example_block_def
        edgeless_store_def)
  from solve_in_block_no_edges[OF e, of "[example_parameters ''noop'']", THEN conjunct1] e
  show ?thesis unfolding w by (rule conjI[rotated])
qed


subsection \<open>A step that is done\<close>

text \<open>
  Claim C3, as the code has it: when the parameter list is not empty and agrees on
  block size and context, attributes.json can be read, from_scratch is false and
  the step named from the parameter ids is marked fully done, \<open>solve_blockwise\<close>
  returns True and the store as it was, whatever the scheduler and the tracker
  would do.
\<close>

theorem solve_blockwise_idempotent:
  assumes "ps \<noteq> []"
    and "\<forall>p \<in> set ps. block_size p = block_size (hd ps) \<and> context_size p = context_size (hd ps)"
    and "read_attributes ext data_dir sample = Inr a"
    and "\<not> from_scratch"
    and "check_function_all_blocks
           (solve_blockwise_step_name (hash_frozenset ext) (map (get_parameters_id ext) ps)) st"
  shows "solve_blockwise ext st sample ps num_workers frames limit_to_roi from_scratch data_dir
           = Inr (True, st) \<and>
         (\<forall>rb t. solve_blockwise (ext\<lparr>tracking_track := t, run_blockwise := rb\<rparr>) st sample ps
                    num_workers frames limit_to_roi from_scratch data_dir = Inr (True, st))"
proof -
  from assms(1) obtain p0 rest where ps: "ps = p0 # rest" by (cases ps) auto
  from assms(2) have all: "list_all (\<lambda>p. block_size p = block_size p0 \<and> context_size p = context_size p0) ps"
    by (simp add: ps list_all_iff)
  have 1: "solve_blockwise ext st sample ps num_workers frames limit_to_roi from_scratch data_dir
           = Inr (True, st)"
    using all assms(3,4,5) unfolding ps
    by (simp add: solve_blockwise_def Let_def)
  have 2: "solve_blockwise (ext\<lparr>tracking_track := t, run_blockwise := rb\<rparr>) st sample ps
                    num_workers frames limit_to_roi from_scratch data_dir = Inr (True, st)" for rb t
    using all assms(3,4,5) unfolding ps
    by (simp add: solve_blockwise_def Let_def)
  from 1 2 show ?thesis by blast
qed

theorem solve_blockwise_idempotent_witness:
  "check_function_all_blocks
     (solve_blockwise_step_name (hash_frozenset example_externals)
        (map (get_parameters_id example_externals) [example_parameters ''noop''])) solved_store \<and>
   solve_blockwise example_externals solved_store ''sample'' [example_parameters ''noop''] 8
     None None False ''../01_data'' = Inr (True, solved_store)"
proof -
  have c: "check_function_all_blocks
     (solve_blockwise_step_name (hash_frozenset example_externals)
        (map (get_parameters_id example_externals) [example_parameters ''noop''])) solved_store"
    by (simp add: check_function_all_blocks_def solve_blockwise_step_name_def example_externals_def
        str_int_1 solved_store_def)
  have r: "read_attributes example_externals ''../01_data'' ''sample''
     = Inr \<lparr>resolution = [1, 5, 1, 1], shape = [10, 20, 100, 100], offset = [0, 0, 0, 0]\<rparr>"
    by (simp add: example_externals_def)
  have n: "[example_parameters ''noop''] \<noteq> []" by simp
  have a: "\<forall>p \<in> set [example_parameters ''noop''].
     block_size p = block_size (hd [example_parameters ''noop'']) \<and>
     context_size p = context_size (hd [example_parameters ''noop''])" by simp
  have f: "\<not> False" by simp
  from solve_blockwise_idempotent[OF n a r f c, THEN conjunct1] c
  show ?thesis by (rule conjI[rotated])
qed


text \<open>
  Claim C3 as stated fails with from_scratch: the selection flags of the parameter
  ids are reset before the check for a finished step, so the call changes the
  store and then returns True without solving.
\<close>

theorem solve_blockwise_from_scratch_counterexample:
  "check_function_all_blocks
     (solve_blockwise_step_name (hash_frozenset example_externals)
        (map (get_parameters_id example_externals) [example_parameters ''noop''])) solved_store \<and>
   solve_blockwise example_externals solved_store ''sample'' [example_parameters ''noop''] 8
     None None True ''../01_data'' = Inr (True, reset_store) \<and>
   edge_flag (candidates solved_store) ''selected_1'' (1, 0) = Some (VBool True) \<and>
   edge_flag (candidates reset_store) ''selected_1'' (1, 0) = None"
  by (simp add: check_function_all_blocks_def solve_blockwise_step_name_def example_externals_def
      str_int_1 solved_store_def solve_blockwise_def Let_def reset_selection_def edge_flag_def
      reset_store_def fun_eq_iff)

section \<open>Properties of the ILP tracker's wrapper\<close>

lemma cell_cycle_keys_None:
  "\<exists>p \<in> set ps. cell_cycle_key p = None \<Longrightarrow> cell_cycle_keys ps = Inl TypeError"
proof (induction ps)
  case Nil
  then show ?case by simp
next
  case (Cons p ps)
  show ?case
  proof (cases "cell_cycle_key p")
    case None
    then show ?thesis by simp
  next
    case (Some k)
    with Cons.prems have "\<exists>p \<in> set ps. cell_cycle_key p = None" by auto
    from Cons.IH[OF this] Some show ?thesis by simp
  qed
qed

lemma cell_cycle_keys_Some:
  "\<forall>p \<in> set ps. cell_cycle_key p \<noteq> None \<Longrightarrow>
   cell_cycle_keys ps = Inr (map (\<lambda>p. the (cell_cycle_key p) @ ''mother'') ps)"
  by (induction ps) auto

lemma node_ids_fold_remove_node:
  "node_ids (fold (\<lambda>n g'. remove_node g' n) ns g) = filter (\<lambda>m. m \<notin> set ns) (node_ids g)"
proof (induction ns arbitrary: g)
  case Nil
  show ?case by simp
next
  case (Cons n ns)
  have "node_ids (remove_node g n) = filter (\<lambda>m. m \<noteq> n) (node_ids g)"
    by (simp add: node_ids_def remove_node_def filter_map comp_def case_prod_unfold)
  with Cons.IH[of "remove_node g n"] show ?case by (simp add: conj_commute)
qed

lemma remove_missing_removes:
  assumes "(n, d) \<in> set (nodes g)" "k \<in> set ks" "d k = None"
  shows "n \<notin> set (node_ids (remove_missing g ks))"
proof -
  from assms have "n \<in> set (to_remove g ks)"
    by (force simp: to_remove_def list_ex_iff)
  then show ?thesis by (simp add: remove_missing_def node_ids_fold_remove_node)
qed


text \<open>
  Claim C10: when the cell cycle key of some parameter set is \<open>None\<close>, \<open>track\<close>
  fails with TypeError, whatever the graph and the solver; when all keys are
  strings and there is a parameter set, \<open>track\<close> continues on the graph without
  every node that lacks the key followed by "mother" of some parameter set, and
  for the empty key that attribute is "mother".
\<close>

theorem track_cell_cycle_key:
  "((\<exists>p \<in> set (parameters (solve config)). cell_cycle_key p = None) \<longrightarrow>
      track ops g config selected_key frame_key frames bid = Inl TypeError) \<and>
   (parameters (solve config) \<noteq> [] \<and>
    (\<forall>p \<in> set (parameters (solve config)). cell_cycle_key p \<noteq> None) \<longrightarrow>
      track ops g config selected_key frame_key frames bid
        = track_solve ops
            (remove_missing g
               (map (\<lambda>p. the (cell_cycle_key p) @ ''mother'') (parameters (solve config))))
            config selected_key frame_key frames bid \<and>
      (\<forall>p \<in> set (parameters (solve config)). \<forall>nd \<in> set (nodes g).
          snd nd (the (cell_cycle_key p) @ ''mother'') = None \<longrightarrow>
          fst nd \<notin> set (node_ids (remove_missing g
               (map (\<lambda>p. the (cell_cycle_key p) @ ''mother'') (parameters (solve config)))))) \<and>
      (\<forall>p \<in> set (parameters (solve config)). cell_cycle_key p = Some [] \<longrightarrow>
          the (cell_cycle_key p) @ ''mother'' = ''mother''))"
proof (intro conjI impI)
  assume "\<exists>p \<in> set (parameters (solve config)). cell_cycle_key p = None"
  from cell_cycle_keys_None[OF this]
  show "track ops g config selected_key frame_key frames bid = Inl TypeError"
    by (simp add: track_def)
next
  let ?ps = "parameters (solve config)"
  let ?ks = "map (\<lambda>p. the (cell_cycle_key p) @ ''mother'') ?ps"
  assume h: "?ps \<noteq> [] \<and> (\<forall>p \<in> set ?ps. cell_cycle_key p \<noteq> None)"
  then have ks: "cell_cycle_keys ?ps = Inr ?ks" by (intro cell_cycle_keys_Some) simp
  from h obtain p0 rest where "?ps = p0 # rest" by (cases ?ps) auto
  then have "list_ex (\<lambda>k. k \<noteq> []) ?ks" by simp
  with ks show "track ops g config selected_key frame_key frames bid
        = track_solve ops (remove_missing g ?ks) config selected_key frame_key frames bid"
    by (simp add: track_def)
  show "\<forall>p \<in> set ?ps. \<forall>nd \<in> set (nodes g).
          snd nd (the (cell_cycle_key p) @ ''mother'') = None \<longrightarrow>
          fst nd \<notin> set (node_ids (remove_missing g ?ks))"
  proof (intro ballI impI)
    fix p nd assume p: "p \<in> set ?ps" and nd: "nd \<in> set (nodes g)"
      and m: "snd nd (the (cell_cycle_key p) @ ''mother'') = None"
    from p have k: "the (cell_cycle_key p) @ ''mother'' \<in> set ?ks" by simp
    have "(fst nd, snd nd) \<in> set (nodes g)" using nd by simp
    from this k m show "fst nd \<notin> set (node_ids (remove_missing g ?ks))"
      by (rule remove_missing_removes)
  qed
  show "\<forall>p \<in> set ?ps. cell_cycle_key p = Some [] \<longrightarrow> the (cell_cycle_key p) @ ''mother'' = ''mother''"
    by simp
qed

theorem track_cell_cycle_key_witness:
  "track example_solver_ops cycle_graph (cycle_config None) [''selected_1''] ''t'' None None
     = Inl TypeError \<and>
   track example_solver_ops cycle_graph (cycle_config (Some [])) [''selected_1''] ''t'' None None
     = track_solve example_solver_ops (remove_missing cycle_graph [''mother''])
         (cycle_config (Some [])) [''selected_1''] ''t'' None None \<and>
   1 \<notin> set (node_ids (remove_missing cycle_graph [''mother'']))"
proof -
  let ?pn = "(example_parameters ''noop'')\<lparr>cell_cycle_key := None\<rparr>"
  let ?pe = "(example_parameters ''noop'')\<lparr>cell_cycle_key := Some []\<rparr>"
  have pn: "parameters (solve (cycle_config None)) = [?pn]"
    and pe: "parameters (solve (cycle_config (Some []))) = [?pe]"
    by (simp_all add: cycle_config_def)
  have n: "\<exists>p \<in> set (parameters (solve (cycle_config None))). cell_cycle_key p = None"
    by (simp add: pn)
  have e: "parameters (solve (cycle_config (Some []))) \<noteq> [] \<and>
    (\<forall>p \<in> set (parameters (solve (cycle_config (Some [])))). cell_cycle_key p \<noteq> None)"
    by (simp add: pe)
  have ks: "map (\<lambda>p. the (cell_cycle_key p) @ ''mother'') (parameters (solve (cycle_config (Some []))))
            = [''mother'']"
    by (simp add: pe)
  note a = track_cell_cycle_key[of "cycle_config None" example_solver_ops cycle_graph
      "[''selected_1'']" "''t''" None None, THEN conjunct1, rule_format, OF n]
  note b = track_cell_cycle_key[of "cycle_config (Some [])" example_solver_ops cycle_graph
      "[''selected_1'']" "''t''" None None, THEN conjunct2, rule_format, OF e, unfolded ks]
  have nd: "(1, [''t'' \<mapsto> VNum 1]) \<in> set (nodes cycle_graph)" by (simp add: cycle_graph_def)
  have pin: "?pe \<in> set (parameters (solve (cycle_config (Some []))))" by (simp add: pe)
  from b[THEN conjunct2, THEN conjunct1, rule_format, OF pin nd]
  have c: "1 \<notin> set (node_ids (remove_missing cycle_graph [''mother'']))" by simp
  from a b[THEN conjunct1] c show ?thesis by (intro conjI)
qed


end
